theory Spec2Isabelle
  imports Complex_Main "HOL-Library.AList"
begin

section \<open>Data model of the media composition pipeline\<close>

text \<open>
  The pipeline lives in three global variables of the page script:
  \<^verbatim>\<open>let selectedFiles = [];\<close>, \<^verbatim>\<open>let currentCarouselIndex = 0;\<close> and
  \<^verbatim>\<open>let cropData = {};\<close>. JavaScript numbers are modelled as exact reals (pixel
  coordinates) or naturals (array indices, byte sizes).
\<close>

subsection \<open>Files and blobs\<close>

text \<open>
  A \<^verbatim>\<open>File\<close> object as far as the script reads it: \<^verbatim>\<open>file.name\<close>, \<^verbatim>\<open>file.type\<close>,
  \<^verbatim>\<open>file.size\<close>, and the bytes themselves, which stay opaque (a content identifier).
  The \<^verbatim>\<open>lastModified\<close> stamp is left out: nothing in the pipeline reads it.
\<close>

record mediaFile =
  fname :: string
  ftype :: string
  fsize :: nat
  content :: nat

record blob =
  bsize :: nat
  bcontent :: nat

subsection \<open>JavaScript arrays\<close>

text \<open>
  \<^verbatim>\<open>selectedFiles\<close> is a JavaScript array. Reading outside the array yields
  \<^verbatim>\<open>undefined\<close>, writing outside extends it; an element is therefore an option,
  \<open>None\<close> standing for \<^verbatim>\<open>undefined\<close>.
\<close>

type_synonym 'a jsarray = "'a option list"

definition jsAt :: "'a jsarray \<Rightarrow> nat \<Rightarrow> 'a option" where
  "jsAt xs i = (if i < length xs then xs ! i else None)"

definition jsPut :: "'a jsarray \<Rightarrow> nat \<Rightarrow> 'a option \<Rightarrow> 'a jsarray" where
  "jsPut xs i v =
     (if i < length xs then xs[i := v]
      else xs @ replicate (i - length xs) None @ [v])"

text \<open>\<^verbatim>\<open>xs.splice(i, 1)\<close>: the array without position \<open>i\<close> (unchanged when \<open>i\<close> is outside).\<close>

definition splice1 :: "nat \<Rightarrow> 'a list \<Rightarrow> 'a list" where
  "splice1 i xs = take i xs @ drop (Suc i) xs"

subsection \<open>The crop store\<close>

text \<open>
  An entry of \<^verbatim>\<open>cropData\<close> is the object written by \<^verbatim>\<open>applyCrop\<close> and
  \<^verbatim>\<open>saveCropData\<close>: exactly the properties \<^verbatim>\<open>cropped\<close>, \<^verbatim>\<open>centerX\<close>,
  \<^verbatim>\<open>centerY\<close>, \<^verbatim>\<open>boxWidth\<close>, \<^verbatim>\<open>boxHeight\<close>.
\<close>

record crop =
  cropped :: bool
  centerX :: real
  centerY :: real
  boxWidth :: real
  boxHeight :: real

text \<open>
  \<^verbatim>\<open>cropData\<close> is an object keyed by item index: an association list of its own
  properties. A key that holds \<^verbatim>\<open>undefined\<close> is not distinguished from a missing key:
  every read of \<^verbatim>\<open>cropData[k]\<close> in the script is a truthiness test or a copy.
  JavaScript enumerates integer keys in ascending order; the list may hold them in any
  order, and no result below depends on it.
\<close>

type_synonym cropStore = "(nat \<times> crop) list"

definition getCrop :: "cropStore \<Rightarrow> nat \<Rightarrow> crop option" where
  "getCrop cd k = map_of cd k"

text \<open>\<^verbatim>\<open>cropData[k] = v\<close>, where \<open>v\<close> may be \<^verbatim>\<open>undefined\<close>.\<close>

definition setCrop :: "nat \<Rightarrow> crop option \<Rightarrow> cropStore \<Rightarrow> cropStore" where
  "setCrop k v cd = (case v of None \<Rightarrow> AList.delete k cd | Some c \<Rightarrow> AList.update k c cd)"

text \<open>\<^verbatim>\<open>delete cropData[k]\<close>.\<close>

definition deleteCrop :: "nat \<Rightarrow> cropStore \<Rightarrow> cropStore" where
  "deleteCrop k cd = AList.delete k cd"

text \<open>\<^verbatim>\<open>Object.keys(cropData)\<close>, already parsed back to numbers.\<close>

definition cropKeys :: "cropStore \<Rightarrow> nat list" where
  "cropKeys cd = map fst cd"

subsection \<open>The composition state\<close>

record state =
  selectedFiles :: "mediaFile jsarray"
  currentCarouselIndex :: nat
  cropData :: cropStore

section \<open>Reordering and removal\<close>

text \<open>
  \<^verbatim>\<open>moveMediaUp(index)\<close>: swap with the previous item, swap the two crop entries, and
  let the carousel cursor follow.
\<close>

definition moveMediaUp :: "nat \<Rightarrow> state \<Rightarrow> state" where
  "moveMediaUp index st =
     (if index > 0 then
        let files = selectedFiles st;
            temp = jsAt files index;
            files1 = jsPut files index (jsAt files (index - 1));
            files2 = jsPut files1 (index - 1) temp;
            cd = cropData st;
            tempCrop = getCrop cd index;
            cd1 = setCrop index (getCrop cd (index - 1)) cd;
            cd2 = setCrop (index - 1) tempCrop cd1;
            cur = currentCarouselIndex st;
            cur' = (if cur = index then index - 1
                    else if cur = index - 1 then index else cur)
        in st\<lparr>selectedFiles := files2, currentCarouselIndex := cur', cropData := cd2\<rparr>
      else st)"

text \<open>
  \<^verbatim>\<open>moveMediaDown(index)\<close>, guarded by \<^verbatim>\<open>index < selectedFiles.length - 1\<close>
  (a comparison of JavaScript numbers: the right side is \<open>-1\<close> for the empty array).
\<close>

definition moveMediaDown :: "nat \<Rightarrow> state \<Rightarrow> state" where
  "moveMediaDown index st =
     (if int index < int (length (selectedFiles st)) - 1 then
        let files = selectedFiles st;
            temp = jsAt files index;
            files1 = jsPut files index (jsAt files (index + 1));
            files2 = jsPut files1 (index + 1) temp;
            cd = cropData st;
            tempCrop = getCrop cd index;
            cd1 = setCrop index (getCrop cd (index + 1)) cd;
            cd2 = setCrop (index + 1) tempCrop cd1;
            cur = currentCarouselIndex st;
            cur' = (if cur = index then index + 1
                    else if cur = index + 1 then index else cur)
        in st\<lparr>selectedFiles := files2, currentCarouselIndex := cur', cropData := cd2\<rparr>
      else st)"

text \<open>
  \<^verbatim>\<open>moveMediaToFirst(index)\<close>: splice the item out, unshift it, and rebuild the crop
  object key by key: keys below \<open>index\<close> move up by one, the others stay, and the moved
  item's crop (if any) goes to key 0.
\<close>

definition moveMediaToFirst :: "nat \<Rightarrow> state \<Rightarrow> state" where
  "moveMediaToFirst index st =
     (if index > 0 then
        let files = selectedFiles st;
            item = jsAt files index;
            files1 = splice1 index files;
            files2 = item # files1;
            itemCrop = getCrop (cropData st) index;
            cd = deleteCrop index (cropData st);
            newCropData =
              fold (\<lambda>idx new.
                      if idx < index then setCrop (idx + 1) (getCrop cd idx) new
                      else setCrop idx (getCrop cd idx) new)
                   (cropKeys cd) [];
            newCropData' =
              (case itemCrop of Some c \<Rightarrow> setCrop 0 (Some c) newCropData
               | None \<Rightarrow> newCropData);
            cur = currentCarouselIndex st;
            cur' = (if cur = index then 0 else if cur < index then cur + 1 else cur)
        in st\<lparr>selectedFiles := files2, currentCarouselIndex := cur',
               cropData := newCropData'\<rparr>
      else st)"

text \<open>
  \<^verbatim>\<open>moveMediaToLast(index)\<close>: splice the item out, push it, and rebuild the crop
  object: keys above \<open>index\<close> move down by one, the others stay, and the moved item's
  crop (if any) goes to the last index.
\<close>

definition moveMediaToLast :: "nat \<Rightarrow> state \<Rightarrow> state" where
  "moveMediaToLast index st =
     (if int index < int (length (selectedFiles st)) - 1 then
        let files = selectedFiles st;
            item = jsAt files index;
            files1 = splice1 index files;
            files2 = files1 @ [item];
            itemCrop = getCrop (cropData st) index;
            cd = deleteCrop index (cropData st);
            lastIndex = length files2 - 1;
            newCropData =
              fold (\<lambda>idx new.
                      if idx > index then setCrop (idx - 1) (getCrop cd idx) new
                      else setCrop idx (getCrop cd idx) new)
                   (cropKeys cd) [];
            newCropData' =
              (case itemCrop of Some c \<Rightarrow> setCrop lastIndex (Some c) newCropData
               | None \<Rightarrow> newCropData);
            cur = currentCarouselIndex st;
            cur' = (if cur = index then lastIndex
                    else if cur > index then cur - 1 else cur)
        in st\<lparr>selectedFiles := files2, currentCarouselIndex := cur',
               cropData := newCropData'\<rparr>
      else st)"

text \<open>
  \<^verbatim>\<open>removeMedia(index)\<close>: splices the item out and sets the cursor to 0. It does not
  touch \<^verbatim>\<open>cropData\<close>.
\<close>

definition removeMedia :: "nat \<Rightarrow> state \<Rightarrow> state" where
  "removeMedia index st =
     st\<lparr>selectedFiles := splice1 index (selectedFiles st), currentCarouselIndex := 0\<rparr>"

text \<open>
  The four reorder commands under one name, and the position an item at position \<open>j\<close>
  of a list of \<open>n\<close> items is meant to have after the command on position \<open>i\<close>:
  the permutation the crop store and the cursor have to follow.
\<close>

datatype reorder = MoveUp | MoveDown | MoveToFirst | MoveToLast

fun applyReorder :: "reorder \<Rightarrow> nat \<Rightarrow> state \<Rightarrow> state" where
  "applyReorder MoveUp i st = moveMediaUp i st"
| "applyReorder MoveDown i st = moveMediaDown i st"
| "applyReorder MoveToFirst i st = moveMediaToFirst i st"
| "applyReorder MoveToLast i st = moveMediaToLast i st"

fun newIndex :: "reorder \<Rightarrow> nat \<Rightarrow> nat \<Rightarrow> nat \<Rightarrow> nat" where
  "newIndex MoveUp n i j =
     (if 0 < i then (if j = i then i - 1 else if j = i - 1 then i else j) else j)"
| "newIndex MoveDown n i j =
     (if i + 1 < n then (if j = i then i + 1 else if j = i + 1 then i else j) else j)"
| "newIndex MoveToFirst n i j =
     (if 0 < i then (if j = i then 0 else if j < i then j + 1 else j) else j)"
| "newIndex MoveToLast n i j =
     (if i + 1 < n then (if j = i then n - 1 else if i < j then j - 1 else j) else j)"

text \<open>Every key of the crop store is the index of an item of the list.\<close>

definition cropKeysInRange :: "state \<Rightarrow> bool" where
  "cropKeysInRange st =
     list_all (\<lambda>k. k < length (selectedFiles st)) (cropKeys (cropData st))"

section \<open>Ingestion\<close>

subsection \<open>The browser as an environment\<close>

text \<open>
  Values a script variable can hold where the script reads a property that may be
  missing.
\<close>

datatype jsval = JUndefined | JNum real | JBool bool

text \<open>
  One pass through a canvas: the size given to the canvas, the arguments of
  \<^verbatim>\<open>ctx.drawImage\<close> after the image, and the type and quality given to
  \<^verbatim>\<open>canvas.toBlob\<close>.
\<close>

record render =
  canvasWidth :: jsval
  canvasHeight :: jsval
  drawArgs :: "jsval list"
  blobType :: string
  blobQuality :: real

text \<open>
  What the browser decides: whether a file loads as an image (\<^verbatim>\<open>FileReader\<close>, then
  \<^verbatim>\<open>Image.onload\<close>) and with which natural size, and which blob, if any,
  \<^verbatim>\<open>canvas.toBlob\<close> hands to its callback (\<open>None\<close> is \<^verbatim>\<open>null\<close>).
\<close>

record env =
  decode :: "mediaFile \<Rightarrow> (nat \<times> nat) option"
  toBlob :: "mediaFile \<Rightarrow> render \<Rightarrow> blob option"

text \<open>Rejections of the promises, and the exception of a read of \<^verbatim>\<open>undefined\<close>.\<close>

datatype failure = LoadError | ResizeFailed | TypeError

datatype event = Toast string string | ConsoleError failure

subsection \<open>Downscaling\<close>

definition MAX_FILE_SIZE :: nat where
  "MAX_FILE_SIZE = 8 * 1024 * 1024"

text \<open>The new \<^verbatim>\<open>(width, height)\<close> computed in \<^verbatim>\<open>resizeImage\<close>.\<close>

definition resizeDims :: "real \<Rightarrow> real \<Rightarrow> real \<times> real" where
  "resizeDims w h =
     (let maxDimension = 1080 in
      if w > h \<and> w > maxDimension then (maxDimension, (h * maxDimension) / w)
      else if h > maxDimension then ((w * maxDimension) / h, maxDimension)
      else (w, h))"

text \<open>
  The canvas pass of \<^verbatim>\<open>resizeImage\<close>: the canvas gets the new size, the image is
  drawn at \<^verbatim>\<open>(0, 0, width, height)\<close>, and the blob is asked for in the type of the
  file at quality 0.9.
\<close>

definition resizeRender :: "mediaFile \<Rightarrow> real \<times> real \<Rightarrow> render" where
  "resizeRender file dims =
     (case dims of
        (width, height) \<Rightarrow>
          \<lparr>canvasWidth = JNum width, canvasHeight = JNum height,
           drawArgs = [JNum 0, JNum 0, JNum width, JNum height],
           blobType = ftype file, blobQuality = 9 / 10\<rparr>)"

text \<open>
  \<^verbatim>\<open>resizeImage(file)\<close>: rejects when the file does not load or when
  \<^verbatim>\<open>toBlob\<close> yields no blob, and resolves with
  \<^verbatim>\<open>new File([blob], file.name, {type: file.type, ...})\<close> otherwise.
\<close>

definition resizeImage :: "env \<Rightarrow> mediaFile \<Rightarrow> failure + mediaFile" where
  "resizeImage e file =
     (case decode e file of
        None \<Rightarrow> Inl LoadError
      | Some (iw, ih) \<Rightarrow>
          (case toBlob e file (resizeRender file (resizeDims (real iw) (real ih))) of
             Some b \<Rightarrow>
               Inr \<lparr>fname = fname file, ftype = ftype file,
                    fsize = bsize b, content = bcontent b\<rparr>
           | None \<Rightarrow> Inl ResizeFailed))"

definition processImage :: "env \<Rightarrow> mediaFile \<Rightarrow> failure + mediaFile" where
  "processImage e file =
     (if fsize file > MAX_FILE_SIZE then resizeImage e file else Inr file)"

subsection \<open>Selecting files\<close>

definition startsWith :: "string \<Rightarrow> string \<Rightarrow> bool" where
  "startsWith s p = (take (length p) s = p)"

text \<open>
  The body of the loop of \<^verbatim>\<open>handleMediaSelect\<close>: the file pushed to
  \<^verbatim>\<open>processedFiles\<close> for one selected file, and what is shown or logged.
\<close>

definition ingestFile :: "env \<Rightarrow> mediaFile \<Rightarrow> mediaFile \<times> event list" where
  "ingestFile e file =
     (if startsWith (ftype file) ''image/'' then
        (case processImage e file of
           Inr processed \<Rightarrow>
             (processed,
              if fsize processed \<noteq> fsize file
              then [Toast (''Image '' @ [CHR 0x22] @ fname file @ [CHR 0x22]
                           @ '' was optimized for Instagram'') ''info'']
              else [])
         | Inl err \<Rightarrow> (file, [ConsoleError err]))
      else (file, []))"

fun ingestLoop ::
  "env \<Rightarrow> mediaFile list \<Rightarrow> mediaFile list \<Rightarrow> event list \<Rightarrow> mediaFile list \<times> event list"
where
  "ingestLoop e [] processedFiles events = (processedFiles, events)"
| "ingestLoop e (file # files) processedFiles events =
     (case ingestFile e file of
        (pushed, evs) \<Rightarrow> ingestLoop e files (processedFiles @ [pushed]) (events @ evs))"

text \<open>
  \<^verbatim>\<open>handleMediaSelect\<close>: more than 20 files in the batch is an error toast and an
  early return; otherwise \<^verbatim>\<open>selectedFiles = processedFiles\<close>. The two calls that
  follow only render.
\<close>

definition handleMediaSelect :: "env \<Rightarrow> mediaFile list \<Rightarrow> state \<Rightarrow> state \<times> event list" where
  "handleMediaSelect e files st =
     (if length files > 20 then (st, [Toast ''Maximum 20 images allowed'' ''error''])
      else (case ingestLoop e files [] [] of
              (processedFiles, events) \<Rightarrow>
                (st\<lparr>selectedFiles := map Some processedFiles\<rparr>, events)))"

section \<open>Rendering a stored crop window\<close>

text \<open>
  The aspect-ratio setting after the dropdown has been read: \<^verbatim>\<open>'original'\<close>, a
  \<^verbatim>\<open>"W:H"\<close> text already split and parsed, or a bare decimal already parsed.
\<close>

datatype aspect = Original | WtoH real real | Decimal real

text \<open>\<^verbatim>\<open>targetRatio\<close> as \<^verbatim>\<open>updatePreview\<close> and \<^verbatim>\<open>displayMediaPreview\<close> parse it.\<close>

definition previewTargetRatio :: "aspect \<Rightarrow> real \<Rightarrow> real \<Rightarrow> real" where
  "previewTargetRatio a iw ih =
     (case a of Original \<Rightarrow> iw / ih | WtoH w h \<Rightarrow> w / h | Decimal d \<Rightarrow> d)"

text \<open>
  The block ``Calculate box dimensions based on current aspect ratio'', which
  \<^verbatim>\<open>updatePreview\<close> and \<^verbatim>\<open>displayMediaPreview\<close> share word for word: the pair
  \<^verbatim>\<open>(boxWidth, boxHeight)\<close> from the stored entry, \<^verbatim>\<open>img.width\<close>,
  \<^verbatim>\<open>img.height\<close> and \<^verbatim>\<open>targetRatio\<close>.
\<close>

definition boxForRatio :: "crop \<Rightarrow> real \<Rightarrow> real \<Rightarrow> real \<Rightarrow> real \<times> real" where
  "boxForRatio c iw ih targetRatio =
     (let storedBoxWidth = boxWidth c;
          storedBoxHeight = boxHeight c;
          possibleWidthFromHeight = storedBoxHeight * targetRatio;
          possibleHeightFromWidth = storedBoxWidth / targetRatio
      in if possibleWidthFromHeight \<le> iw then (possibleWidthFromHeight, storedBoxHeight)
         else if possibleHeightFromWidth \<le> ih then (storedBoxWidth, possibleHeightFromWidth)
         else if storedBoxWidth / iw > storedBoxHeight / ih
              then (storedBoxWidth, storedBoxWidth / targetRatio)
              else (storedBoxHeight * targetRatio, storedBoxHeight))"

text \<open>
  The blocks ``Calculate crop position from center'' and ``Clamp to image bounds'': the
  source rectangle handed to \<^verbatim>\<open>drawImage\<close>.
\<close>

record cropRect =
  clampedX :: real
  clampedY :: real
  clampedW :: real
  clampedH :: real

definition clampToImage :: "real \<Rightarrow> real \<Rightarrow> real \<times> real \<Rightarrow> real \<Rightarrow> real \<Rightarrow> cropRect" where
  "clampToImage cx cy b iw ih =
     (case b of
        (bw, bh) \<Rightarrow>
          let cropX = cx - bw / 2;
              cropY = cy - bh / 2;
              cX = max 0 (min cropX (iw - bw));
              cY = max 0 (min cropY (ih - bh));
              cW = min bw (iw - cX);
              cH = min bh (ih - cY)
          in \<lparr>clampedX = cX, clampedY = cY, clampedW = cW, clampedH = cH\<rparr>)"

definition recomputeForRatio :: "crop \<Rightarrow> real \<Rightarrow> real \<Rightarrow> real \<Rightarrow> cropRect" where
  "recomputeForRatio c iw ih targetRatio =
     clampToImage (centerX c) (centerY c) (boxForRatio c iw ih targetRatio) iw ih"

text \<open>
  The crop window the recomputation stands for: the stored entry with the box the script
  derives for the ratio. The script keeps it in local variables and never writes it back.
\<close>

definition recomputedWindow :: "crop \<Rightarrow> real \<Rightarrow> real \<Rightarrow> real \<Rightarrow> crop" where
  "recomputedWindow c iw ih targetRatio =
     c\<lparr>boxWidth := fst (boxForRatio c iw ih targetRatio),
       boxHeight := snd (boxForRatio c iw ih targetRatio)\<rparr>"

text \<open>
  The carousel part of \<^verbatim>\<open>updatePreview\<close>: nothing for the empty list; otherwise
  \<^verbatim>\<open>selectedFiles[currentCarouselIndex]\<close> is read (a \<^verbatim>\<open>TypeError\<close> in
  \<^verbatim>\<open>readAsDataURL\<close> when that is \<^verbatim>\<open>undefined\<close>) and, once loaded, drawn whole or
  through the crop entry stored under the same index.
\<close>

datatype preview =
  NoPreview | PreviewTypeError | PreviewPending
  | FullImage mediaFile | CroppedImage mediaFile cropRect

definition updatePreview :: "aspect \<Rightarrow> env \<Rightarrow> state \<Rightarrow> preview" where
  "updatePreview setting e st =
     (if length (selectedFiles st) > 0 then
        (case jsAt (selectedFiles st) (currentCarouselIndex st) of
           None \<Rightarrow> PreviewTypeError
         | Some currentFile \<Rightarrow>
             (case decode e currentFile of
                None \<Rightarrow> PreviewPending
              | Some (iw, ih) \<Rightarrow>
                  (case getCrop (cropData st) (currentCarouselIndex st) of
                     Some c \<Rightarrow>
                       if cropped c
                       then CroppedImage currentFile
                              (recomputeForRatio c (real iw) (real ih)
                                 (previewTargetRatio setting (real iw) (real ih)))
                       else FullImage currentFile
                   | None \<Rightarrow> FullImage currentFile)))
      else NoPreview)"

section \<open>The crop modal\<close>

text \<open>
  \<^verbatim>\<open>cropState.cropBox\<close>, in display pixels: the properties \<^verbatim>\<open>x\<close>, \<^verbatim>\<open>y\<close>,
  \<^verbatim>\<open>width\<close>, \<^verbatim>\<open>height\<close>.
\<close>

record displayBox =
  boxX :: real
  boxY :: real
  boxW :: real
  boxH :: real

text \<open>\<^verbatim>\<open>cropState\<close> (its \<^verbatim>\<open>imageData\<close> property is never read or written).\<close>

record cropState =
  startX :: real
  startY :: real
  startWidth :: real
  startHeight :: real
  startLeft :: real
  startTop :: real
  isMoving :: bool
  isResizing :: bool
  resizeHandle :: "string option"
  cropBox :: "displayBox option"
  imageWidth :: real
  imageHeight :: real
  originalAspectRatio :: real

text \<open>\<^verbatim>\<open>targetRatio\<close> as \<^verbatim>\<open>handleMouseMove\<close> determines it.\<close>

definition resizeTargetRatio :: "aspect \<Rightarrow> cropState \<Rightarrow> real" where
  "resizeTargetRatio a cs =
     (case a of Original \<Rightarrow> originalAspectRatio cs | WtoH w h \<Rightarrow> w / h | Decimal d \<Rightarrow> d)"

text \<open>
  The resize branch of \<^verbatim>\<open>handleMouseMove\<close>. The script assigns \<^verbatim>\<open>newWidth\<close>,
  \<^verbatim>\<open>newHeight\<close>, \<^verbatim>\<open>newX\<close>, \<^verbatim>\<open>newY\<close> several times in a row; each assignment is
  a numbered binding here, in the order of the script.
\<close>

definition resizeBox ::
  "string \<Rightarrow> real \<Rightarrow> real \<Rightarrow> real \<Rightarrow> real \<Rightarrow> real \<Rightarrow> cropState \<Rightarrow> displayBox" where
  "resizeBox handle targetRatio imageLeft imageTop deltaX deltaY cs =
     (let minSize = 50;
          hasE = CHR ''e'' \<in> set handle;
          hasS = CHR ''s'' \<in> set handle;
          hasW = CHR ''w'' \<in> set handle;
          hasN = CHR ''n'' \<in> set handle;
          newWidth1 = (if hasE then max minSize (startWidth cs + deltaX) else startWidth cs);
          newHeight1 = (if hasS then max minSize (startHeight cs + deltaY) else startHeight cs);
          newWidth2 = (if hasW then max minSize (startWidth cs - deltaX) else newWidth1);
          newX1 = (if hasW then startLeft cs + deltaX else startLeft cs);
          newHeight2 = (if hasN then max minSize (startHeight cs - deltaY) else newHeight1);
          newY1 = (if hasN then startTop cs + deltaY else startTop cs);
          newHeight3 = (if hasE \<or> hasW then newWidth2 / targetRatio else newHeight2);
          newWidth3 = (if hasE \<or> hasW then newWidth2
                       else if hasS \<or> hasN then newHeight2 * targetRatio else newWidth2);
          imageRight = imageLeft + imageWidth cs;
          imageBottom = imageTop + imageHeight cs;
          newX2 = (if newX1 < imageLeft then imageLeft else newX1);
          newWidth4 = (if newX1 < imageLeft then min newWidth3 (imageRight - newX2)
                       else newWidth3);
          newY2 = (if newY1 < imageTop then imageTop else newY1);
          newHeight4 = (if newY1 < imageTop then min newHeight3 (imageBottom - newY2)
                        else newHeight3);
          overRight = (newX2 + newWidth4 > imageRight);
          newWidth5 = (if overRight then imageRight - newX2 else newWidth4);
          newHeight5 = (if overRight then newWidth5 / targetRatio else newHeight4);
          overBottom = (newY2 + newHeight5 > imageBottom);
          newHeight6 = (if overBottom then imageBottom - newY2 else newHeight5);
          newWidth6 = (if overBottom then newHeight6 * targetRatio else newWidth5)
      in \<lparr>boxX = newX2, boxY = newY2, boxW = newWidth6, boxH = newHeight6\<rparr>)"

text \<open>
  \<^verbatim>\<open>handleMouseMove(e)\<close>, given the setting of the dropdown, the offsets of the image
  element and the pointer position. A \<^verbatim>\<open>null\<close> crop box or handle makes the script
  throw before it writes \<^verbatim>\<open>cropState\<close>.
\<close>

definition handleMouseMove ::
  "aspect \<Rightarrow> real \<Rightarrow> real \<Rightarrow> real \<Rightarrow> real \<Rightarrow> cropState \<Rightarrow> cropState" where
  "handleMouseMove setting imageLeft imageTop clientX clientY cs =
     (if \<not> isMoving cs \<and> \<not> isResizing cs then cs
      else
        let deltaX = clientX - startX cs;
            deltaY = clientY - startY cs
        in if isMoving cs then
             (case cropBox cs of
                None \<Rightarrow> cs
              | Some b \<Rightarrow>
                  let maxX = imageLeft + imageWidth cs - boxW b;
                      maxY = imageTop + imageHeight cs - boxH b;
                      newX = max imageLeft (min (startLeft cs + deltaX) maxX);
                      newY = max imageTop (min (startTop cs + deltaY) maxY)
                  in cs\<lparr>cropBox := Some (b\<lparr>boxX := newX, boxY := newY\<rparr>)\<rparr>)
           else
             (case (resizeHandle cs, cropBox cs) of
                (Some handle, Some b) \<Rightarrow>
                  cs\<lparr>cropBox :=
                       Some (resizeBox handle (resizeTargetRatio setting cs)
                               imageLeft imageTop deltaX deltaY cs)\<rparr>
              | _ \<Rightarrow> cs))"

text \<open>
  \<^verbatim>\<open>applyCrop()\<close>: converts the box on screen to source pixels and stores centre and
  size under \<^verbatim>\<open>currentCropIndex\<close>. The two bounding rectangles it subtracts are taken
  to be the image offsets and the box that \<^verbatim>\<open>handleMouseMove\<close> wrote to the style and
  to \<^verbatim>\<open>cropState\<close> alike. Nothing is stored when there is no open box, no file under
  the index, or the image never loads. (Closing the modal afterwards resets
  \<^verbatim>\<open>cropState\<close>.)
\<close>

definition applyCrop ::
  "env \<Rightarrow> real \<Rightarrow> real \<Rightarrow> real \<Rightarrow> real \<Rightarrow> nat option \<Rightarrow> cropState \<Rightarrow> state \<Rightarrow> state" where
  "applyCrop e displayWidth displayHeight imageLeft imageTop currentCropIndex cs st =
     (case (currentCropIndex, cropBox cs) of
        (Some idx, Some b) \<Rightarrow>
          (case jsAt (selectedFiles st) idx of
             None \<Rightarrow> st
           | Some file \<Rightarrow>
               (case decode e file of
                  None \<Rightarrow> st
                | Some (iw, ih) \<Rightarrow>
                    let scaleX = real iw / displayWidth;
                        scaleY = real ih / displayHeight;
                        relativeLeft = boxX b - imageLeft;
                        relativeTop = boxY b - imageTop;
                        cropBoxWidth = boxW b;
                        cropBoxHeight = boxH b
                    in st\<lparr>cropData :=
                           setCrop idx
                             (Some \<lparr>cropped = True,
                                    centerX = (relativeLeft + cropBoxWidth / 2) * scaleX,
                                    centerY = (relativeTop + cropBoxHeight / 2) * scaleY,
                                    boxWidth = cropBoxWidth * scaleX,
                                    boxHeight = cropBoxHeight * scaleY\<rparr>)
                             (cropData st)\<rparr>))
      | _ \<Rightarrow> st)"

section \<open>Submission\<close>

text \<open>Reading a property of a crop entry by name; a name it does not have is undefined.\<close>

definition cropProp :: "crop \<Rightarrow> string \<Rightarrow> jsval" where
  "cropProp c p =
     (if p = ''cropped'' then JBool (cropped c)
      else if p = ''centerX'' then JNum (centerX c)
      else if p = ''centerY'' then JNum (centerY c)
      else if p = ''boxWidth'' then JNum (boxWidth c)
      else if p = ''boxHeight'' then JNum (boxHeight c)
      else JUndefined)"

text \<open>
  \<^verbatim>\<open>applyCropToFile(file, cropData)\<close>: loads the file, sizes the canvas by
  \<^verbatim>\<open>cropData.width\<close> and \<^verbatim>\<open>cropData.height\<close>, draws the source rectangle
  \<^verbatim>\<open>cropData.x, cropData.y, cropData.width, cropData.height\<close>, and resolves with
  whatever \<^verbatim>\<open>toBlob\<close> yields.
\<close>

definition applyCropToFile :: "env \<Rightarrow> mediaFile \<Rightarrow> crop \<Rightarrow> failure + blob option" where
  "applyCropToFile e file cd =
     (case decode e file of
        None \<Rightarrow> Inl LoadError
      | Some d \<Rightarrow>
          Inr (toBlob e file
                 \<lparr>canvasWidth = cropProp cd ''width'',
                  canvasHeight = cropProp cd ''height'',
                  drawArgs = [cropProp cd ''x'', cropProp cd ''y'',
                              cropProp cd ''width'', cropProp cd ''height'',
                              JNum 0, JNum 0,
                              cropProp cd ''width'', cropProp cd ''height''],
                  blobType = ''image/jpeg'', blobQuality = 95 / 100\<rparr>))"

text \<open>
  What \<^verbatim>\<open>formData.append('media', ...)\<close> receives: the selected file itself, or
  \<^verbatim>\<open>new File([croppedBlob], file.name, {type: 'image/jpeg'})\<close>.
\<close>

datatype entry = MediaFile "mediaFile option" | CroppedFile "blob option" string string

text \<open>The loop of \<^verbatim>\<open>processFiles\<close> over the indices of \<^verbatim>\<open>selectedFiles\<close>.\<close>

fun appendMedia :: "env \<Rightarrow> state \<Rightarrow> nat list \<Rightarrow> entry list \<Rightarrow> failure + entry list" where
  "appendMedia e st [] formData = Inr formData"
| "appendMedia e st (index # rest) formData =
     (let file = jsAt (selectedFiles st) index in
      case getCrop (cropData st) index of
        None \<Rightarrow> appendMedia e st rest (formData @ [MediaFile file])
      | Some cd \<Rightarrow>
          if cropped cd then
            (case file of
               None \<Rightarrow> Inl TypeError
             | Some f \<Rightarrow>
                 (case applyCropToFile e f cd of
                    Inl err \<Rightarrow> Inl err
                  | Inr croppedBlob \<Rightarrow>
                      appendMedia e st rest
                        (formData @ [CroppedFile croppedBlob (fname f) ''image/jpeg''])))
          else appendMedia e st rest (formData @ [MediaFile file]))"

text \<open>
  \<^verbatim>\<open>handleCreatePost\<close> as far as the media go: an error toast for the empty list or a
  missing date, otherwise the entries in order; a rejected crop leaves the request
  unsent.
\<close>

datatype postOutcome = ToastError string | Unhandled failure | Submitted "entry list"

definition handleCreatePost :: "env \<Rightarrow> bool \<Rightarrow> state \<Rightarrow> postOutcome" where
  "handleCreatePost e hasDateTime st =
     (if length (selectedFiles st) = 0 then ToastError ''Please select at least one image''
      else if \<not> hasDateTime then ToastError ''Please select a date and time''
      else (case appendMedia e st [0..<length (selectedFiles st)] [] of
              Inl err \<Rightarrow> Unhandled err
            | Inr formData \<Rightarrow> Submitted formData))"

section \<open>Sample compositions\<close>

definition fileA :: mediaFile where
  "fileA = \<lparr>fname = ''a.jpg'', ftype = ''image/jpeg'', fsize = 1000, content = 1\<rparr>"

definition fileB :: mediaFile where
  "fileB = \<lparr>fname = ''b.jpg'', ftype = ''image/jpeg'', fsize = 2000, content = 2\<rparr>"

definition fileC :: mediaFile where
  "fileC = \<lparr>fname = ''c.jpg'', ftype = ''image/jpeg'', fsize = 3000, content = 3\<rparr>"

definition cropA :: crop where
  "cropA = \<lparr>cropped = True, centerX = 500, centerY = 500, boxWidth = 800, boxHeight = 600\<rparr>"

definition cropB :: crop where
  "cropB = \<lparr>cropped = True, centerX = 300, centerY = 200, boxWidth = 400, boxHeight = 400\<rparr>"

definition cropC :: crop where
  "cropC = \<lparr>cropped = True, centerX = 640, centerY = 360, boxWidth = 200, boxHeight = 100\<rparr>"

text \<open>\<open>[A, B, C]\<close> with a crop on \<open>B\<close> and the carousel on \<open>B\<close>.\<close>

definition cropOnB :: state where
  "cropOnB = \<lparr>selectedFiles = [Some fileA, Some fileB, Some fileC],
              currentCarouselIndex = 1, cropData = [(1, cropB)]\<rparr>"

text \<open>\<open>[A, B, C]\<close> with crops on \<open>A\<close> and \<open>C\<close> and the carousel on \<open>C\<close>.\<close>

definition cropsOnAC :: state where
  "cropsOnAC = \<lparr>selectedFiles = [Some fileA, Some fileB, Some fileC],
                currentCarouselIndex = 2, cropData = [(0, cropA), (2, cropC)]\<rparr>"

text \<open>A ten-megabyte photograph, a small text file, and two browsers.\<close>

definition bigImage :: mediaFile where
  "bigImage = \<lparr>fname = ''big.jpg'', ftype = ''image/jpeg'', fsize = 10485760, content = 4\<rparr>"

definition textFile :: mediaFile where
  "textFile = \<lparr>fname = ''notes.txt'', ftype = ''text/plain'', fsize = 9000000, content = 5\<rparr>"

definition decode4000x3000 :: "mediaFile \<Rightarrow> (nat \<times> nat) option" where
  "decode4000x3000 f = Some (4000, 3000)"

definition smallBlob :: "mediaFile \<Rightarrow> render \<Rightarrow> blob option" where
  "smallBlob f r = Some \<lparr>bsize = 500000, bcontent = 6\<rparr>"

definition noBlob :: "mediaFile \<Rightarrow> render \<Rightarrow> blob option" where
  "noBlob f r = None"

text \<open>Every file loads as a 4000 by 3000 image and every canvas encodes.\<close>

definition workingBrowser :: env where
  "workingBrowser = \<lparr>decode = decode4000x3000, toBlob = smallBlob\<rparr>"

text \<open>Every file loads as a 4000 by 3000 image and no canvas encodes.\<close>

definition failingEncoder :: env where
  "failingEncoder = \<lparr>decode = decode4000x3000, toBlob = noBlob\<rparr>"

text \<open>A composition that holds \<open>A\<close> only.\<close>

definition onlyA :: state where
  "onlyA = \<lparr>selectedFiles = [Some fileA], currentCarouselIndex = 0, cropData = []\<rparr>"

text \<open>Twenty copies of \<open>A\<close>.\<close>

definition twentyA :: state where
  "twentyA = \<lparr>selectedFiles = replicate 20 (Some fileA), currentCarouselIndex = 0,
              cropData = []\<rparr>"

text \<open>\<open>[A]\<close> with a committed crop on \<open>A\<close>.\<close>

definition croppedA :: state where
  "croppedA = \<lparr>selectedFiles = [Some fileA], currentCarouselIndex = 0,
               cropData = [(0, cropA)]\<rparr>"

text \<open>A stored box larger than a 100 by 100 image.\<close>

definition oversizedCrop :: crop where
  "oversizedCrop =
     \<lparr>cropped = True, centerX = 50, centerY = 50, boxWidth = 300, boxHeight = 200\<rparr>"

text \<open>
  The crop modal over an image shown at 800 by 200 (natural size 1600 by 400, setting
  \<^verbatim>\<open>'original'\<close>): the west handle of the box \<open>(200, 50, 400, 100)\<close> was pressed
  at pointer position \<open>(0, 0)\<close>.
\<close>

definition wideModal :: cropState where
  "wideModal =
     \<lparr>startX = 0, startY = 0, startWidth = 400, startHeight = 100,
      startLeft = 200, startTop = 50, isMoving = False, isResizing = True,
      resizeHandle = Some ''w'',
      cropBox = Some \<lparr>boxX = 200, boxY = 50, boxW = 400, boxH = 100\<rparr>,
      imageWidth = 800, imageHeight = 200, originalAspectRatio = 4\<rparr>"

text \<open>
  The crop modal over an image measured at 400 by 400, setting \<^verbatim>\<open>"4:1"\<close>: the west
  handle of the box \<open>(100, 150, 200, 50)\<close> was pressed at pointer position \<open>(0, 0)\<close>.
\<close>

definition squareModal :: cropState where
  "squareModal =
     \<lparr>startX = 0, startY = 0, startWidth = 200, startHeight = 50,
      startLeft = 100, startTop = 150, isMoving = False, isResizing = True,
      resizeHandle = Some ''w'',
      cropBox = Some \<lparr>boxX = 100, boxY = 150, boxW = 200, boxH = 50\<rparr>,
      imageWidth = 400, imageHeight = 400, originalAspectRatio = 1\<rparr>"

definition decode1600x400 :: "mediaFile \<Rightarrow> (nat \<times> nat) option" where
  "decode1600x400 f = Some (1600, 400)"

definition decode400x400 :: "mediaFile \<Rightarrow> (nat \<times> nat) option" where
  "decode400x400 f = Some (400, 400)"

definition wideBrowser :: env where
  "wideBrowser = \<lparr>decode = decode1600x400, toBlob = smallBlob\<rparr>"

definition squareBrowser :: env where
  "squareBrowser = \<lparr>decode = decode400x400, toBlob = smallBlob\<rparr>"

text \<open>
  The window stored after the west handle of the square modal was dragged 2000 pixels to
  the left.
\<close>

definition overwideCrop :: crop where
  "overwideCrop =
     \<lparr>cropped = True, centerX = 500, centerY = 275, boxWidth = 1000, boxHeight = 250\<rparr>"

section \<open>Properties of the crop store and of arrays\<close>


lemma getCrop_Nil: "getCrop [] k = None"
  by (simp add: getCrop_def)

lemma getCrop_setCrop: "getCrop (setCrop k v cd) k' = (if k' = k then v else getCrop cd k')"
  by (cases v) (simp_all add: getCrop_def setCrop_def delete_conv update_conv)

lemma getCrop_deleteCrop: "getCrop (deleteCrop k cd) k' = (if k' = k then None else getCrop cd k')"
  by (simp add: getCrop_def deleteCrop_def delete_conv)

lemma cropKeys_deleteCrop: "set (cropKeys (deleteCrop k cd)) = set (cropKeys cd) - {k}"
  by (auto simp add: cropKeys_def deleteCrop_def AList.delete_eq)

lemma getCrop_None_notin: "k \<notin> set (cropKeys cd) \<Longrightarrow> getCrop cd k = None"
  by (simp add: getCrop_def cropKeys_def map_of_eq_None_iff)

lemma rebuild_other:
  "k \<notin> t ` set ks \<Longrightarrow>
   getCrop (fold (\<lambda>idx new. setCrop (t idx) (g idx) new) ks init) k = getCrop init k"
  by (induction ks arbitrary: init) (auto simp: getCrop_setCrop)

lemma rebuild_hit:
  "inj_on t (set ks) \<Longrightarrow> idx \<in> set ks \<Longrightarrow>
   getCrop (fold (\<lambda>idx new. setCrop (t idx) (g idx) new) ks init) (t idx) = g idx"
proof (induction ks arbitrary: init)
  case Nil
  then show ?case by simp
next
  case (Cons x ks)
  show ?case
  proof (cases "idx \<in> set ks")
    case True
    moreover have "inj_on t (set ks)" using Cons.prems(1) by (simp add: inj_on_def)
    ultimately show ?thesis using Cons.IH by simp
  next
    case False
    then have eq: "idx = x" using Cons.prems(2) by simp
    have "t x \<notin> t ` set ks"
      using Cons.prems(1) False eq by (auto simp: inj_on_def)
    then show ?thesis using eq by (simp add: rebuild_other getCrop_setCrop)
  qed
qed

lemma jsAt_jsPut: "i < length xs \<Longrightarrow> jsAt (jsPut xs i v) k = (if k = i then v else jsAt xs k)"
  by (auto simp: jsAt_def jsPut_def)

lemma length_jsPut: "i < length xs \<Longrightarrow> length (jsPut xs i v) = length xs"
  by (simp add: jsPut_def)

lemma length_splice1: "i < length xs \<Longrightarrow> length (splice1 i xs) = length xs - 1"
  by (simp add: splice1_def)

lemma nth_splice1: "i < length xs \<Longrightarrow> k < length xs - 1 \<Longrightarrow>
  splice1 i xs ! k = (if k < i then xs ! k else xs ! Suc k)"
  by (auto simp: splice1_def nth_append min_def)


lemma rebuild_lookup:
  assumes "inj_on t (set (cropKeys cd))"
    and "\<And>idx. idx \<in> set (cropKeys cd) \<Longrightarrow> (t idx = k) = (idx = s)"
  shows "getCrop (fold (\<lambda>idx new. setCrop (t idx) (getCrop cd idx) new) (cropKeys cd) []) k
         = getCrop cd s"
proof (cases "s \<in> set (cropKeys cd)")
  case True
  then have "t s = k" using assms(2) by simp
  then show ?thesis using rebuild_hit [OF assms(1) True, of "getCrop cd" "[]"] by simp
next
  case False
  then have "k \<notin> t ` set (cropKeys cd)" using assms(2) by auto
  then show ?thesis using False by (simp add: rebuild_other getCrop_Nil getCrop_None_notin)
qed

section \<open>Properties of the reorder commands\<close>

lemma moveMediaUp_files:
  assumes "0 < i" "i < length (selectedFiles st)"
  shows "length (selectedFiles (moveMediaUp i st)) = length (selectedFiles st)"
    and "jsAt (selectedFiles (moveMediaUp i st)) k =
         (if k = i then jsAt (selectedFiles st) (i - 1)
          else if k = i - 1 then jsAt (selectedFiles st) i else jsAt (selectedFiles st) k)"
  using assms by (auto simp: moveMediaUp_def Let_def length_jsPut jsAt_jsPut)

lemma moveMediaUp_crops:
  assumes "0 < i"
  shows "getCrop (cropData (moveMediaUp i st)) k =
         (if k = i then getCrop (cropData st) (i - 1)
          else if k = i - 1 then getCrop (cropData st) i else getCrop (cropData st) k)"
  using assms by (auto simp: moveMediaUp_def Let_def getCrop_setCrop)

lemma moveMediaUp_cursor:
  assumes "0 < i"
  shows "currentCarouselIndex (moveMediaUp i st) =
         (if currentCarouselIndex st = i then i - 1
          else if currentCarouselIndex st = i - 1 then i else currentCarouselIndex st)"
  using assms by (simp add: moveMediaUp_def Let_def)

lemma moveMediaDown_files:
  assumes "Suc i < length (selectedFiles st)"
  shows "length (selectedFiles (moveMediaDown i st)) = length (selectedFiles st)"
    and "jsAt (selectedFiles (moveMediaDown i st)) k =
         (if k = i then jsAt (selectedFiles st) (i + 1)
          else if k = i + 1 then jsAt (selectedFiles st) i else jsAt (selectedFiles st) k)"
  using assms by (auto simp: moveMediaDown_def Let_def length_jsPut jsAt_jsPut)

lemma moveMediaDown_crops:
  assumes "Suc i < length (selectedFiles st)"
  shows "getCrop (cropData (moveMediaDown i st)) k =
         (if k = i then getCrop (cropData st) (i + 1)
          else if k = i + 1 then getCrop (cropData st) i else getCrop (cropData st) k)"
  using assms by (auto simp: moveMediaDown_def Let_def getCrop_setCrop)

lemma moveMediaDown_cursor:
  assumes "Suc i < length (selectedFiles st)"
  shows "currentCarouselIndex (moveMediaDown i st) =
         (if currentCarouselIndex st = i then i + 1
          else if currentCarouselIndex st = i + 1 then i else currentCarouselIndex st)"
  using assms by (simp add: moveMediaDown_def Let_def)

lemma moveMediaDown_noop:
  "\<not> Suc i < length (selectedFiles st) \<Longrightarrow> moveMediaDown i st = st"
  by (auto simp: moveMediaDown_def)

lemma moveMediaToLast_noop:
  "\<not> Suc i < length (selectedFiles st) \<Longrightarrow> moveMediaToLast i st = st"
  by (auto simp: moveMediaToLast_def)

lemma moveMediaToFirst_files:
  assumes "0 < i" "i < length (selectedFiles st)"
  shows "length (selectedFiles (moveMediaToFirst i st)) = length (selectedFiles st)"
    and "k < length (selectedFiles st) \<Longrightarrow>
         jsAt (selectedFiles (moveMediaToFirst i st)) k =
         (if k = 0 then jsAt (selectedFiles st) i
          else if k \<le> i then jsAt (selectedFiles st) (k - 1) else jsAt (selectedFiles st) k)"
  using assms
  by (auto simp: moveMediaToFirst_def Let_def jsAt_def length_splice1 nth_splice1 nth_Cons'
      split: if_splits)

lemma moveMediaToFirst_crops:
  assumes "0 < i"
  shows "getCrop (cropData (moveMediaToFirst i st)) k =
         (if k = 0 then getCrop (cropData st) i
          else if k \<le> i then getCrop (cropData st) (k - 1) else getCrop (cropData st) k)"
proof -
  define cd where "cd = deleteCrop i (cropData st)"
  define t where "t = (\<lambda>idx. if idx < i then idx + 1 else idx)"
  define new where "new = fold (\<lambda>idx new. setCrop (t idx) (getCrop cd idx) new) (cropKeys cd) []"
  have fold_eq: "fold (\<lambda>idx new. if idx < i then setCrop (idx + 1) (getCrop cd idx) new
                        else setCrop idx (getCrop cd idx) new) (cropKeys cd) [] = new"
    unfolding new_def t_def by (rule arg_cong [where f = "\<lambda>f. fold f (cropKeys cd) []"]) auto
  have keys: "i \<notin> set (cropKeys cd)" by (simp add: cd_def cropKeys_deleteCrop)
  have inj: "inj_on t (set (cropKeys cd))"
  proof (rule inj_onI)
    fix x y assume "x \<in> set (cropKeys cd)" "y \<in> set (cropKeys cd)" "t x = t y"
    moreover from this keys have "x \<noteq> i" "y \<noteq> i" by auto
    ultimately show "x = y" by (simp add: t_def split: if_splits)
  qed
  have zero: "getCrop new 0 = None"
  proof -
    have "0 \<notin> t ` set (cropKeys cd)" using keys assms by (auto simp: t_def split: if_splits)
    then show ?thesis by (simp add: new_def rebuild_other getCrop_Nil)
  qed
  have low: "getCrop new k = getCrop cd (k - 1)" if "0 < k" "k \<le> i" for k
    unfolding new_def
    by (rule rebuild_lookup [OF inj]) (use that keys in \<open>auto simp: t_def split: if_splits\<close>)
  have high: "getCrop new k = getCrop cd k" if "i < k" for k
    unfolding new_def
    by (rule rebuild_lookup [OF inj]) (use that keys in \<open>auto simp: t_def split: if_splits\<close>)
  have res: "cropData (moveMediaToFirst i st) =
        (case getCrop (cropData st) i of Some c \<Rightarrow> setCrop 0 (Some c) new | None \<Rightarrow> new)"
    using assms
    by (simp add: moveMediaToFirst_def Let_def fold_eq [unfolded cd_def] split: option.splits)
  show ?thesis
    using assms zero low [of k] high [of k]
    by (auto simp: res cd_def getCrop_setCrop getCrop_deleteCrop split: option.splits)
qed

lemma moveMediaToFirst_cursor:
  assumes "0 < i"
  shows "currentCarouselIndex (moveMediaToFirst i st) =
         (if currentCarouselIndex st = i then 0
          else if currentCarouselIndex st < i then currentCarouselIndex st + 1
          else currentCarouselIndex st)"
  using assms by (simp add: moveMediaToFirst_def Let_def)


lemma moveMediaToLast_files:
  assumes "Suc i < length (selectedFiles st)"
  shows "length (selectedFiles (moveMediaToLast i st)) = length (selectedFiles st)"
    and "k < length (selectedFiles st) \<Longrightarrow>
         jsAt (selectedFiles (moveMediaToLast i st)) k =
         (if k = length (selectedFiles st) - 1 then jsAt (selectedFiles st) i
          else if i \<le> k then jsAt (selectedFiles st) (k + 1) else jsAt (selectedFiles st) k)"
  using assms
  by (auto simp: moveMediaToLast_def Let_def jsAt_def length_splice1 nth_splice1 nth_append
      split: if_splits)

lemma moveMediaToLast_crops:
  assumes "Suc i < length (selectedFiles st)"
  shows "getCrop (cropData (moveMediaToLast i st)) k =
         (if k = length (selectedFiles st) - 1
          then (case getCrop (cropData st) i of Some c \<Rightarrow> Some c
                | None \<Rightarrow> getCrop (cropData st) (length (selectedFiles st)))
          else if i \<le> k then getCrop (cropData st) (k + 1) else getCrop (cropData st) k)"
proof -
  define cd where "cd = deleteCrop i (cropData st)"
  define t where "t = (\<lambda>idx. if idx > i then idx - 1 else idx)"
  define new where "new = fold (\<lambda>idx new. setCrop (t idx) (getCrop cd idx) new) (cropKeys cd) []"
  have fold_eq: "fold (\<lambda>idx new. if idx > i then setCrop (idx - 1) (getCrop cd idx) new
                        else setCrop idx (getCrop cd idx) new) (cropKeys cd) [] = new"
    unfolding new_def t_def by (rule arg_cong [where f = "\<lambda>f. fold f (cropKeys cd) []"]) auto
  have keys: "i \<notin> set (cropKeys cd)" by (simp add: cd_def cropKeys_deleteCrop)
  have inj: "inj_on t (set (cropKeys cd))"
  proof (rule inj_onI)
    fix x y assume "x \<in> set (cropKeys cd)" "y \<in> set (cropKeys cd)" "t x = t y"
    moreover from this keys have "x \<noteq> i" "y \<noteq> i" by auto
    ultimately show "x = y" by (simp add: t_def split: if_splits)
  qed
  have low: "getCrop new k = getCrop cd k" if "k < i" for k
    unfolding new_def
    by (rule rebuild_lookup [OF inj]) (use that keys in \<open>auto simp: t_def split: if_splits\<close>)
  have high: "getCrop new k = getCrop cd (k + 1)" if "i \<le> k" for k
    unfolding new_def
    by (rule rebuild_lookup [OF inj]) (use that keys in \<open>auto simp: t_def split: if_splits\<close>)
  have len: "length (splice1 i (selectedFiles st)) = length (selectedFiles st) - 1"
    using assms by (simp add: length_splice1)
  have res: "cropData (moveMediaToLast i st) =
        (case getCrop (cropData st) i of
           Some c \<Rightarrow> setCrop (length (selectedFiles st) - 1) (Some c) new | None \<Rightarrow> new)"
    using assms
    by (simp add: moveMediaToLast_def Let_def len fold_eq [unfolded cd_def] split: option.splits)
  have suc: "Suc (length (selectedFiles st) - Suc 0) = length (selectedFiles st)"
    using assms by simp
  show ?thesis
    using assms low [of k] high [of k]
    by (auto simp: res cd_def getCrop_setCrop getCrop_deleteCrop suc split: option.splits)
qed

lemma moveMediaToLast_cursor:
  assumes "Suc i < length (selectedFiles st)"
  shows "currentCarouselIndex (moveMediaToLast i st) =
         (if currentCarouselIndex st = i then length (selectedFiles st) - 1
          else if currentCarouselIndex st > i then currentCarouselIndex st - 1
          else currentCarouselIndex st)"
  using assms by (simp add: moveMediaToLast_def Let_def length_splice1)

lemma moveMediaUp_noop: "\<not> 0 < i \<Longrightarrow> moveMediaUp i st = st"
  by (simp add: moveMediaUp_def)

lemma moveMediaToFirst_noop: "\<not> 0 < i \<Longrightarrow> moveMediaToFirst i st = st"
  by (simp add: moveMediaToFirst_def)

lemma newIndex_less: "i < n \<Longrightarrow> j < n \<Longrightarrow> newIndex op n i j < n"
  by (cases op) auto

lemma newIndex_inj: "i < n \<Longrightarrow> j < n \<Longrightarrow> k < n \<Longrightarrow> 
  newIndex op n i j = newIndex op n i k \<Longrightarrow> j = k"
  by (cases op) (auto split: if_splits)

lemma reorder_length:
  assumes "i < length (selectedFiles st)"
  shows "length (selectedFiles (applyReorder op i st)) = length (selectedFiles st)"
proof (cases op)
  case MoveUp
  then show ?thesis
    using assms by (cases "0 < i") (simp_all add: moveMediaUp_files moveMediaUp_noop)
next
  case MoveDown
  then show ?thesis
    by (cases "Suc i < length (selectedFiles st)")
       (simp_all add: moveMediaDown_files moveMediaDown_noop)
next
  case MoveToFirst
  then show ?thesis
    using assms by (cases "0 < i") (simp_all add: moveMediaToFirst_files moveMediaToFirst_noop)
next
  case MoveToLast
  then show ?thesis
    by (cases "Suc i < length (selectedFiles st)")
       (simp_all add: moveMediaToLast_files moveMediaToLast_noop)
qed

lemma reorder_files:
  assumes "i < length (selectedFiles st)" "j < length (selectedFiles st)"
  shows "jsAt (selectedFiles (applyReorder op i st)) (newIndex op (length (selectedFiles st)) i j)
         = jsAt (selectedFiles st) j"
proof -
  have less: "newIndex op (length (selectedFiles st)) i j < length (selectedFiles st)"
    using assms by (rule newIndex_less)
  show ?thesis
  proof (cases op)
    case MoveUp
    then show ?thesis
      using assms by (cases "0 < i") (auto simp: moveMediaUp_files moveMediaUp_noop)
  next
    case MoveDown
    then show ?thesis
      using assms
      by (cases "Suc i < length (selectedFiles st)")
         (auto simp: moveMediaDown_files moveMediaDown_noop)
  next
    case MoveToFirst
    show ?thesis
    proof (cases "0 < i")
      case True
      show ?thesis
        using moveMediaToFirst_files(2) [OF True assms(1) less [unfolded MoveToFirst]] True assms
        by (auto simp: MoveToFirst)
    next
      case False
      then show ?thesis by (simp add: MoveToFirst moveMediaToFirst_noop)
    qed
  next
    case MoveToLast
    show ?thesis
    proof (cases "Suc i < length (selectedFiles st)")
      case True
      show ?thesis
        using moveMediaToLast_files(2) [OF True less [unfolded MoveToLast]] True assms
        by (auto simp: MoveToLast)
    next
      case False
      then show ?thesis by (simp add: MoveToLast moveMediaToLast_noop)
    qed
  qed
qed

lemma getCrop_out_of_range:
  "cropKeysInRange st \<Longrightarrow> length (selectedFiles st) \<le> k \<Longrightarrow> getCrop (cropData st) k = None"
  by (rule getCrop_None_notin) (auto simp: cropKeysInRange_def list_all_iff)

lemma reorder_crops_some:
  assumes "i < length (selectedFiles st)" "j < length (selectedFiles st)"
    and "getCrop (cropData st) j = Some c"
  shows "getCrop (cropData (applyReorder op i st)) (newIndex op (length (selectedFiles st)) i j)
         = Some c"
proof (cases op)
  case MoveUp
  then show ?thesis
    using assms by (cases "0 < i") (auto simp: moveMediaUp_crops moveMediaUp_noop)
next
  case MoveDown
  then show ?thesis
    using assms
    by (cases "Suc i < length (selectedFiles st)") (auto simp: moveMediaDown_crops moveMediaDown_noop)
next
  case MoveToFirst
  then show ?thesis
    using assms
    by (cases "0 < i") (auto simp: moveMediaToFirst_crops moveMediaToFirst_noop)
next
  case MoveToLast
  then show ?thesis
    using assms
    by (cases "Suc i < length (selectedFiles st)")
       (auto simp: moveMediaToLast_crops moveMediaToLast_noop)
qed

lemma reorder_crops_all:
  assumes "i < length (selectedFiles st)" "j < length (selectedFiles st)"
    and "cropKeysInRange st"
  shows "getCrop (cropData (applyReorder op i st)) (newIndex op (length (selectedFiles st)) i j)
         = getCrop (cropData st) j"
proof (cases op)
  case MoveUp
  then show ?thesis
    using assms by (cases "0 < i") (auto simp: moveMediaUp_crops moveMediaUp_noop)
next
  case MoveDown
  then show ?thesis
    using assms
    by (cases "Suc i < length (selectedFiles st)") (auto simp: moveMediaDown_crops moveMediaDown_noop)
next
  case MoveToFirst
  then show ?thesis
    using assms
    by (cases "0 < i") (auto simp: moveMediaToFirst_crops moveMediaToFirst_noop)
next
  case MoveToLast
  then show ?thesis
    using assms getCrop_out_of_range [of st "length (selectedFiles st)"]
    by (cases "Suc i < length (selectedFiles st)")
       (auto simp: moveMediaToLast_crops moveMediaToLast_noop split: option.splits)
qed

lemma reorder_cursor:
  assumes "i < length (selectedFiles st)"
  shows "currentCarouselIndex (applyReorder op i st)
         = newIndex op (length (selectedFiles st)) i (currentCarouselIndex st)"
proof (cases op)
  case MoveUp
  then show ?thesis
    using assms by (cases "0 < i") (auto simp: moveMediaUp_cursor moveMediaUp_noop)
next
  case MoveDown
  then show ?thesis
    using assms
    by (cases "Suc i < length (selectedFiles st)") (auto simp: moveMediaDown_cursor moveMediaDown_noop)
next
  case MoveToFirst
  then show ?thesis
    using assms
    by (cases "0 < i") (auto simp: moveMediaToFirst_cursor moveMediaToFirst_noop)
next
  case MoveToLast
  then show ?thesis
    using assms
    by (cases "Suc i < length (selectedFiles st)")
       (auto simp: moveMediaToLast_cursor moveMediaToLast_noop)
qed

section \<open>Claims about reordering and removal\<close>

text \<open>
  C4. For each of the four reorder commands on a valid index \<open>i\<close>, with \<open>j\<close> any
  position of the list and \<open>newIndex\<close> the position the item at \<open>j\<close> moves to: the
  list keeps its length, the item at \<open>j\<close> is found at its new position, a crop window
  stored for \<open>j\<close> is stored unchanged for the new position, and a cursor on \<open>j\<close>
  is on the new position afterwards. When no key of the crop store lies outside the
  list, the new position holds exactly what \<open>j\<close> held, so an item without a crop
  window does not acquire one either.
\<close>

theorem reorder_keeps_crops_and_cursor:
  assumes "i < length (selectedFiles st)" and "j < length (selectedFiles st)"
  shows "length (selectedFiles (applyReorder op i st)) = length (selectedFiles st)
       \<and> newIndex op (length (selectedFiles st)) i j < length (selectedFiles st)
       \<and> jsAt (selectedFiles (applyReorder op i st)) (newIndex op (length (selectedFiles st)) i j)
           = jsAt (selectedFiles st) j
       \<and> (\<forall>c. getCrop (cropData st) j = Some c \<longrightarrow>
              getCrop (cropData (applyReorder op i st)) (newIndex op (length (selectedFiles st)) i j)
              = Some c)
       \<and> (cropKeysInRange st \<longrightarrow>
              getCrop (cropData (applyReorder op i st)) (newIndex op (length (selectedFiles st)) i j)
              = getCrop (cropData st) j)
       \<and> (currentCarouselIndex st = j \<longrightarrow>
              currentCarouselIndex (applyReorder op i st)
              = newIndex op (length (selectedFiles st)) i j)"
  using assms
  by (simp add: reorder_length newIndex_less reorder_files reorder_crops_some reorder_crops_all
      reorder_cursor)

theorem reorder_keeps_crops_and_cursor_witness:
  "(1::nat) < length (selectedFiles cropOnB)
   \<and> getCrop (cropData cropOnB) 1 = Some cropB
   \<and> cropKeysInRange cropOnB
   \<and> currentCarouselIndex cropOnB = 1
   \<and> jsAt (selectedFiles (applyReorder MoveToFirst 1 cropOnB)) 0 = Some fileB
   \<and> getCrop (cropData (applyReorder MoveToFirst 1 cropOnB)) 0 = Some cropB
   \<and> currentCarouselIndex (applyReorder MoveToFirst 1 cropOnB) = 0"
proof -
  have h1: "(1::nat) < length (selectedFiles cropOnB)" by (simp add: cropOnB_def)
  have h2: "getCrop (cropData cropOnB) 1 = Some cropB" by (simp add: cropOnB_def getCrop_def)
  have h3: "cropKeysInRange cropOnB"
    by (simp add: cropOnB_def cropKeysInRange_def cropKeys_def)
  have h4: "currentCarouselIndex cropOnB = 1" by (simp add: cropOnB_def)
  have n: "newIndex MoveToFirst (length (selectedFiles cropOnB)) 1 1 = 0" by simp
  have f: "jsAt (selectedFiles cropOnB) 1 = Some fileB" by (simp add: cropOnB_def jsAt_def)
  from reorder_keeps_crops_and_cursor [OF h1 h1, of MoveToFirst] h1 h2 h3 h4 f
  show ?thesis unfolding n by simp
qed

text \<open>
  C1. \<^verbatim>\<open>removeMedia\<close> does not remap the crop store and always puts the cursor on
  index 0. Removing \<open>A\<close> from \<open>[A(crop), B, C(crop)]\<close> with the carousel on
  \<open>C\<close> leaves \<open>[B, C]\<close> with the crop of \<open>A\<close> under index 0, now the index
  of \<open>B\<close>, nothing under index 1, now the index of \<open>C\<close>, the crop of \<open>C\<close>
  under the vacant index 2, and the carousel on \<open>B\<close>.
\<close>

theorem removeMedia_leaves_crops_behind:
  "selectedFiles (removeMedia 0 cropsOnAC) = [Some fileB, Some fileC]
   \<and> getCrop (cropData (removeMedia 0 cropsOnAC)) 0 = Some cropA
   \<and> getCrop (cropData (removeMedia 0 cropsOnAC)) 1 = None
   \<and> getCrop (cropData (removeMedia 0 cropsOnAC)) 2 = Some cropC
   \<and> jsAt (selectedFiles cropsOnAC) (currentCarouselIndex cropsOnAC) = Some fileC
   \<and> jsAt (selectedFiles (removeMedia 0 cropsOnAC))
        (currentCarouselIndex (removeMedia 0 cropsOnAC)) = Some fileB"
  by (simp add: removeMedia_def cropsOnAC_def splice1_def getCrop_def jsAt_def)

section \<open>Properties of ingestion\<close>

lemma ingestLoop_files:
  "fst (ingestLoop e files acc evs) = acc @ map (\<lambda>f. fst (ingestFile e f)) files"
  by (induction files arbitrary: acc evs) (auto split: prod.splits)

lemma handleMediaSelect_accepted:
  "length files \<le> 20 \<Longrightarrow>
   fst (handleMediaSelect e files st)
   = st\<lparr>selectedFiles := map (\<lambda>f. Some (fst (ingestFile e f))) files\<rparr>"
  using ingestLoop_files [of e files "[]" "[]"]
  by (auto simp: handleMediaSelect_def comp_def split: prod.splits)

lemma ingest_small: "ingestFile e fileB = (fileB, [])"
  by (simp add: ingestFile_def processImage_def fileB_def MAX_FILE_SIZE_def startsWith_def)
lemma resizeDims_ratio: "fst (resizeDims w h) * h = snd (resizeDims w h) * w"
  by (auto simp: resizeDims_def Let_def)

lemma resizeDims_max: "0 \<le> w \<Longrightarrow> 0 \<le> h \<Longrightarrow>
  max (fst (resizeDims w h)) (snd (resizeDims w h)) \<le> 1080"
  by (auto simp: resizeDims_def Let_def divide_le_eq)

lemma resizeImage_Inr:
  assumes "decode e file = Some (iw, ih)" "resizeImage e file = Inr out"
  shows "\<exists>b. toBlob e file (resizeRender file (resizeDims (real iw) (real ih))) = Some b
           \<and> out = \<lparr>fname = fname file, ftype = ftype file, fsize = bsize b, content = bcontent b\<rparr>"
  using assms by (auto simp: resizeImage_def split: option.splits)

lemma resizeRender_parts:
  "canvasWidth (resizeRender file d) = JNum (fst d)"
  "canvasHeight (resizeRender file d) = JNum (snd d)"
  "drawArgs (resizeRender file d) = [JNum 0, JNum 0, JNum (fst d), JNum (snd d)]"
  "blobType (resizeRender file d) = ftype file"
  "blobQuality (resizeRender file d) = 9 / 10"
  by (cases d; simp add: resizeRender_def)+

lemma resizeDims_over:
  assumes "1080 < max w h"
  shows "fst (resizeDims w h) = w * 1080 / max w h"
    and "snd (resizeDims w h) = h * 1080 / max w h"
    and "max (fst (resizeDims w h)) (snd (resizeDims w h)) = 1080"
  using assms by (auto simp: resizeDims_def Let_def max_def divide_le_eq le_divide_eq)

lemma resizeDims_under: "max w h \<le> 1080 \<Longrightarrow> resizeDims w h = (w, h)"
  by (auto simp: resizeDims_def Let_def)

lemma resizeDims_pos:
  "0 < w \<Longrightarrow> 0 < h \<Longrightarrow> 0 < fst (resizeDims w h) \<and> 0 < snd (resizeDims w h)"
  by (auto simp: resizeDims_def Let_def)

lemma ingestFile_pushes_processed:
  "startsWith (ftype file) ''image/'' \<Longrightarrow> processImage e file = Inr out \<Longrightarrow>
   fst (ingestFile e file) = out"
  by (simp add: ingestFile_def)

lemma handleMediaSelect_single:
  "selectedFiles (fst (handleMediaSelect e [file] st)) = [Some (fst (ingestFile e file))]"
  by (simp add: handleMediaSelect_accepted)

lemma resizeDims_4000x3000: "resizeDims 4000 3000 = (1080, 810)"
  by (simp add: resizeDims_def)

lemma handleMediaSelect_frame:
  "cropData (fst (handleMediaSelect e files st)) = cropData st"
  "currentCarouselIndex (fst (handleMediaSelect e files st)) = currentCarouselIndex st"
  by (auto simp: handleMediaSelect_def split: prod.splits)

section \<open>Claims about ingestion\<close>

text \<open>
  C3. \<^verbatim>\<open>handleMediaSelect\<close> assigns the processed batch to \<^verbatim>\<open>selectedFiles\<close>
  and compares the length of the batch alone with 20. Selecting \<open>B\<close> while \<open>A\<close> is
  selected leaves \<open>[B]\<close>, not \<open>[A, B]\<close>; and selecting one file while twenty are
  selected, 21 in total, is accepted without any toast and leaves that one file.
\<close>

theorem handleMediaSelect_not_additive:
  "selectedFiles (fst (handleMediaSelect workingBrowser [fileB] onlyA)) = [Some fileB]
   \<and> selectedFiles (fst (handleMediaSelect workingBrowser [fileB] onlyA))
       \<noteq> selectedFiles onlyA @ [Some fileB]
   \<and> length (selectedFiles twentyA) + length [fileB] > 20
   \<and> handleMediaSelect workingBrowser [fileB] twentyA
       = (twentyA\<lparr>selectedFiles := [Some fileB]\<rparr>, [])"
  by (simp add: handleMediaSelect_def ingest_small onlyA_def twentyA_def)

text \<open>
  C9. For a file over the 8 MiB threshold that loads as an image of \<open>iw\<close> by \<open>ih\<close>
  pixels: whenever \<^verbatim>\<open>processImage\<close> resolves, its output is the blob of the canvas
  pass whose canvas has the new size and on which the image is drawn at that size,
  encoded at quality 0.9 under the name and type of the file; \<^verbatim>\<open>processImage\<close> does
  resolve, with that file, whenever the canvas yields a blob; and for an image file the
  resolved output is the very file that is pushed and selected. The new size has the
  proportions of the original (exactly, in exact arithmetic) and neither side exceeds
  1080: when the longer side exceeds 1080, both sides are scaled by 1080 over the longer
  side, so that the longer side becomes 1080; otherwise the size is unchanged; and the
  new sides of an image with positive sides are positive. A file that is not an image is
  pushed unmodified, and so is a file at or under the threshold.
\<close>

theorem processImage_downscales_large_images:
  "(fsize file > MAX_FILE_SIZE \<and> decode e file = Some (iw, ih) \<and> processImage e file = Inr out
      \<longrightarrow> (\<exists>b. toBlob e file (resizeRender file (resizeDims (real iw) (real ih))) = Some b
               \<and> out = \<lparr>fname = fname file, ftype = ftype file,
                         fsize = bsize b, content = bcontent b\<rparr>)
          \<and> blobQuality (resizeRender file (resizeDims (real iw) (real ih))) = 9 / 10
          \<and> canvasWidth (resizeRender file (resizeDims (real iw) (real ih)))
              = JNum (fst (resizeDims (real iw) (real ih)))
          \<and> canvasHeight (resizeRender file (resizeDims (real iw) (real ih)))
              = JNum (snd (resizeDims (real iw) (real ih)))
          \<and> fst (resizeDims (real iw) (real ih)) * real ih
              = snd (resizeDims (real iw) (real ih)) * real iw
          \<and> max (fst (resizeDims (real iw) (real ih))) (snd (resizeDims (real iw) (real ih)))
              \<le> 1080)
   \<and> (fsize file > MAX_FILE_SIZE \<and> decode e file = Some (iw, ih)
        \<and> toBlob e file (resizeRender file (resizeDims (real iw) (real ih))) = Some b
      \<longrightarrow> processImage e file
            = Inr \<lparr>fname = fname file, ftype = ftype file, fsize = bsize b, content = bcontent b\<rparr>)
   \<and> (\<not> startsWith (ftype file) ''image/'' \<longrightarrow> ingestFile e file = (file, []))
   \<and> (fsize file \<le> MAX_FILE_SIZE \<longrightarrow>
        processImage e file = Inr file \<and> ingestFile e file = (file, []))
   \<and> (1080 < max (real iw) (real ih) \<longrightarrow>
        fst (resizeDims (real iw) (real ih)) = real iw * 1080 / max (real iw) (real ih)
        \<and> snd (resizeDims (real iw) (real ih)) = real ih * 1080 / max (real iw) (real ih)
        \<and> max (fst (resizeDims (real iw) (real ih))) (snd (resizeDims (real iw) (real ih)))
            = 1080)
   \<and> (max (real iw) (real ih) \<le> 1080 \<longrightarrow>
        resizeDims (real iw) (real ih) = (real iw, real ih))
   \<and> (0 < iw \<and> 0 < ih \<longrightarrow>
        0 < fst (resizeDims (real iw) (real ih)) \<and> 0 < snd (resizeDims (real iw) (real ih)))
   \<and> drawArgs (resizeRender file (resizeDims (real iw) (real ih)))
       = [JNum 0, JNum 0, JNum (fst (resizeDims (real iw) (real ih))),
          JNum (snd (resizeDims (real iw) (real ih)))]
   \<and> blobType (resizeRender file (resizeDims (real iw) (real ih))) = ftype file
   \<and> (startsWith (ftype file) ''image/'' \<and> processImage e file = Inr out \<longrightarrow>
        fst (ingestFile e file) = out
        \<and> selectedFiles (fst (handleMediaSelect e [file] st)) = [Some out])"
proof -
  let ?d = "resizeDims (real iw) (real ih)"
  have c1: "fsize file > MAX_FILE_SIZE \<and> decode e file = Some (iw, ih)
            \<and> processImage e file = Inr out
      \<longrightarrow> (\<exists>b. toBlob e file (resizeRender file ?d) = Some b
               \<and> out = \<lparr>fname = fname file, ftype = ftype file,
                         fsize = bsize b, content = bcontent b\<rparr>)
          \<and> blobQuality (resizeRender file ?d) = 9 / 10
          \<and> canvasWidth (resizeRender file ?d) = JNum (fst ?d)
          \<and> canvasHeight (resizeRender file ?d) = JNum (snd ?d)
          \<and> fst ?d * real ih = snd ?d * real iw
          \<and> max (fst ?d) (snd ?d) \<le> 1080"
  proof (intro impI conjI)
    assume a: "fsize file > MAX_FILE_SIZE \<and> decode e file = Some (iw, ih)
               \<and> processImage e file = Inr out"
    then have "resizeImage e file = Inr out" by (auto simp: processImage_def)
    with a show "\<exists>b. toBlob e file (resizeRender file ?d) = Some b
               \<and> out = \<lparr>fname = fname file, ftype = ftype file,
                         fsize = bsize b, content = bcontent b\<rparr>"
      by (simp add: resizeImage_Inr)
  next
    show "blobQuality (resizeRender file ?d) = 9 / 10" by (simp add: resizeRender_parts)
  next
    show "canvasWidth (resizeRender file ?d) = JNum (fst ?d)" by (simp add: resizeRender_parts)
  next
    show "canvasHeight (resizeRender file ?d) = JNum (snd ?d)" by (simp add: resizeRender_parts)
  next
    show "fst ?d * real ih = snd ?d * real iw" by (rule resizeDims_ratio)
  next
    show "max (fst ?d) (snd ?d) \<le> 1080" by (rule resizeDims_max) simp_all
  qed
  have c2: "fsize file > MAX_FILE_SIZE \<and> decode e file = Some (iw, ih)
        \<and> toBlob e file (resizeRender file ?d) = Some b
      \<longrightarrow> processImage e file
            = Inr \<lparr>fname = fname file, ftype = ftype file, fsize = bsize b, content = bcontent b\<rparr>"
    by (simp add: processImage_def resizeImage_def)
  have c3: "\<not> startsWith (ftype file) ''image/'' \<longrightarrow> ingestFile e file = (file, [])"
    by (simp add: ingestFile_def)
  have c4: "fsize file \<le> MAX_FILE_SIZE \<longrightarrow>
        processImage e file = Inr file \<and> ingestFile e file = (file, [])"
    by (simp add: processImage_def ingestFile_def)
  have c5: "1080 < max (real iw) (real ih) \<longrightarrow>
        fst ?d = real iw * 1080 / max (real iw) (real ih)
        \<and> snd ?d = real ih * 1080 / max (real iw) (real ih)
        \<and> max (fst ?d) (snd ?d) = 1080"
    using resizeDims_over [of "real iw" "real ih"] by blast
  have c6: "max (real iw) (real ih) \<le> 1080 \<longrightarrow> ?d = (real iw, real ih)"
    using resizeDims_under [of "real iw" "real ih"] by blast
  have c7: "0 < iw \<and> 0 < ih \<longrightarrow> 0 < fst ?d \<and> 0 < snd ?d"
    using resizeDims_pos [of "real iw" "real ih"] by simp
  have c8: "drawArgs (resizeRender file ?d) = [JNum 0, JNum 0, JNum (fst ?d), JNum (snd ?d)]"
    by (simp add: resizeRender_parts)
  have c9: "blobType (resizeRender file ?d) = ftype file"
    by (simp add: resizeRender_parts)
  have c10: "startsWith (ftype file) ''image/'' \<and> processImage e file = Inr out \<longrightarrow>
        fst (ingestFile e file) = out
        \<and> selectedFiles (fst (handleMediaSelect e [file] st)) = [Some out]"
    by (simp add: handleMediaSelect_single ingestFile_pushes_processed)
  show ?thesis by (intro conjI c1 c2 c3 c4 c5 c6 c7 c8 c9 c10)
qed

theorem processImage_downscales_large_images_witness:
  "fsize bigImage > MAX_FILE_SIZE
   \<and> decode workingBrowser bigImage = Some (4000, 3000)
   \<and> toBlob workingBrowser bigImage (resizeRender bigImage (1080, 810))
       = Some \<lparr>bsize = 500000, bcontent = 6\<rparr>
   \<and> processImage workingBrowser bigImage
       = Inr \<lparr>fname = ''big.jpg'', ftype = ''image/jpeg'', fsize = 500000, content = 6\<rparr>
   \<and> max (fst (resizeDims (real 4000) (real 3000))) (snd (resizeDims (real 4000) (real 3000)))
       \<le> 1080
   \<and> fst (resizeDims (real 4000) (real 3000)) * real 3000
       = snd (resizeDims (real 4000) (real 3000)) * real 4000
   \<and> \<not> startsWith (ftype textFile) ''image/''
   \<and> ingestFile workingBrowser textFile = (textFile, [])
   \<and> fsize fileA \<le> MAX_FILE_SIZE
   \<and> processImage workingBrowser fileA = Inr fileA
   \<and> 1080 < max (real 4000) (real 3000)
   \<and> fst (resizeDims (real 4000) (real 3000)) = 1080
   \<and> snd (resizeDims (real 4000) (real 3000)) = 810
   \<and> max (real 800) (real 600) \<le> 1080
   \<and> resizeDims (real 800) (real 600) = (800, 600)
   \<and> 0 < fst (resizeDims (real 4000) (real 3000))
   \<and> 0 < snd (resizeDims (real 4000) (real 3000))
   \<and> startsWith (ftype bigImage) ''image/''
   \<and> fst (ingestFile workingBrowser bigImage)
       = \<lparr>fname = ''big.jpg'', ftype = ''image/jpeg'', fsize = 500000, content = 6\<rparr>
   \<and> selectedFiles (fst (handleMediaSelect workingBrowser [bigImage] onlyA))
       = [Some \<lparr>fname = ''big.jpg'', ftype = ''image/jpeg'', fsize = 500000, content = 6\<rparr>]"
proof -
  let ?out = "\<lparr>fname = ''big.jpg'', ftype = ''image/jpeg'', fsize = 500000, content = 6\<rparr>"
  have big: "fsize bigImage > MAX_FILE_SIZE" by (simp add: bigImage_def MAX_FILE_SIZE_def)
  have dec: "decode workingBrowser bigImage = Some (4000, 3000)"
    by (simp add: workingBrowser_def decode4000x3000_def)
  have blob: "toBlob workingBrowser bigImage (resizeRender bigImage (resizeDims (real 4000) (real 3000)))
       = Some \<lparr>bsize = 500000, bcontent = 6\<rparr>"
    by (simp add: workingBrowser_def smallBlob_def)
  have plain: "\<not> startsWith (ftype textFile) ''image/''" by (simp add: textFile_def startsWith_def)
  have small: "fsize fileA \<le> MAX_FILE_SIZE" by (simp add: fileA_def MAX_FILE_SIZE_def)
  have img: "startsWith (ftype bigImage) ''image/''" by (simp add: bigImage_def startsWith_def)
  note T1 = processImage_downscales_large_images
      [of bigImage workingBrowser 4000 3000 ?out "\<lparr>bsize = 500000, bcontent = 6\<rparr>" onlyA]
  have "processImage workingBrowser bigImage
        = Inr \<lparr>fname = fname bigImage, ftype = ftype bigImage,
               fsize = bsize \<lparr>bsize = 500000, bcontent = 6\<rparr>,
               content = bcontent \<lparr>bsize = 500000, bcontent = 6\<rparr>\<rparr>"
    by (rule T1 [THEN conjunct2, THEN conjunct1, THEN mp]) (intro conjI big dec blob)
  then have out: "processImage workingBrowser bigImage = Inr ?out"
    by (simp add: bigImage_def)
  note T0 = T1 [THEN conjunct1, THEN mp, OF conjI [OF big conjI [OF dec out]]]
  have mx: "max (fst (resizeDims (real 4000) (real 3000))) (snd (resizeDims (real 4000) (real 3000)))
       \<le> 1080"
    using T0 by blast
  have ra: "fst (resizeDims (real 4000) (real 3000)) * real 3000
       = snd (resizeDims (real 4000) (real 3000)) * real 4000"
    using T0 by blast
  have t: "ingestFile workingBrowser textFile = (textFile, [])"
    by (rule processImage_downscales_large_images
          [of textFile workingBrowser, THEN conjunct2, THEN conjunct2, THEN conjunct1, THEN mp])
       (rule plain)
  have s: "processImage workingBrowser fileA = Inr fileA"
    by (rule processImage_downscales_large_images
          [of fileA workingBrowser, THEN conjunct2, THEN conjunct2, THEN conjunct2, THEN conjunct1,
           THEN mp, THEN conjunct1])
       (rule small)
  have blob': "toBlob workingBrowser bigImage (resizeRender bigImage (1080, 810))
       = Some \<lparr>bsize = 500000, bcontent = 6\<rparr>"
    using blob by (simp add: resizeDims_4000x3000)
  have over: "1080 < max (real 4000) (real 3000)" by simp
  have sc: "fst (resizeDims (real 4000) (real 3000)) = real 4000 * 1080 / max (real 4000) (real 3000)
        \<and> snd (resizeDims (real 4000) (real 3000)) = real 3000 * 1080 / max (real 4000) (real 3000)
        \<and> max (fst (resizeDims (real 4000) (real 3000))) (snd (resizeDims (real 4000) (real 3000)))
            = 1080"
    using T1 over by blast
  have f1: "fst (resizeDims (real 4000) (real 3000)) = 1080"
    using sc [THEN conjunct1] by simp
  have s1: "snd (resizeDims (real 4000) (real 3000)) = 810"
    using sc [THEN conjunct2, THEN conjunct1] by simp
  have under: "max (real 800) (real 600) \<le> 1080" by simp
  have "resizeDims (real 800) (real 600) = (real 800, real 600)"
    using processImage_downscales_large_images [of bigImage workingBrowser 800 600] under by blast
  then have u: "resizeDims (real 800) (real 600) = (800, 600)" by simp
  have pos: "0 < fst (resizeDims (real 4000) (real 3000))
           \<and> 0 < snd (resizeDims (real 4000) (real 3000))"
    using T1 by simp
  have push: "fst (ingestFile workingBrowser bigImage) = ?out
        \<and> selectedFiles (fst (handleMediaSelect workingBrowser [bigImage] onlyA)) = [Some ?out]"
    using T1 img out by blast
  show ?thesis
    by (intro conjI big dec blob' out mx ra plain t small s over f1 s1 under u
        pos [THEN conjunct1] pos [THEN conjunct2] img push [THEN conjunct1] push [THEN conjunct2])
qed

text \<open>
  C8, as the script behaves: when an oversized file loads but the canvas yields no blob,
  \<^verbatim>\<open>resizeImage\<close> rejects with ``Failed to resize image'' and
  \<^verbatim>\<open>processImage\<close> passes the rejection on; \<^verbatim>\<open>handleMediaSelect\<close> catches
  it, logs it to the console, pushes the original file in its place and accepts the
  batch.
\<close>

theorem reencode_failure_is_caught:
  assumes "fsize file > MAX_FILE_SIZE"
    and "decode e file = Some (iw, ih)"
    and "toBlob e file (resizeRender file (resizeDims (real iw) (real ih))) = None"
  shows "resizeImage e file = Inl ResizeFailed
       \<and> processImage e file = Inl ResizeFailed
       \<and> (startsWith (ftype file) ''image/'' \<longrightarrow>
            ingestFile e file = (file, [ConsoleError ResizeFailed])
            \<and> handleMediaSelect e [file] st
                = (st\<lparr>selectedFiles := [Some file]\<rparr>, [ConsoleError ResizeFailed]))"
  using assms
  by (simp add: resizeImage_def processImage_def ingestFile_def handleMediaSelect_def)

theorem reencode_failure_is_caught_witness:
  "fsize bigImage > MAX_FILE_SIZE
   \<and> decode failingEncoder bigImage = Some (4000, 3000)
   \<and> toBlob failingEncoder bigImage (resizeRender bigImage (resizeDims (real 4000) (real 3000)))
       = None
   \<and> startsWith (ftype bigImage) ''image/''
   \<and> processImage failingEncoder bigImage = Inl ResizeFailed
   \<and> ingestFile failingEncoder bigImage = (bigImage, [ConsoleError ResizeFailed])"
proof -
  have big: "fsize bigImage > MAX_FILE_SIZE" by (simp add: bigImage_def MAX_FILE_SIZE_def)
  have dec: "decode failingEncoder bigImage = Some (4000, 3000)"
    by (simp add: failingEncoder_def decode4000x3000_def)
  have blob: "toBlob failingEncoder bigImage
                (resizeRender bigImage (resizeDims (real 4000) (real 3000))) = None"
    by (simp add: failingEncoder_def noBlob_def)
  have img: "startsWith (ftype bigImage) ''image/''"
    by (simp add: bigImage_def startsWith_def)
  note T = reencode_failure_is_caught [OF big dec blob]
  have p: "processImage failingEncoder bigImage = Inl ResizeFailed"
    by (rule T [THEN conjunct2, THEN conjunct1])
  have i: "ingestFile failingEncoder bigImage = (bigImage, [ConsoleError ResizeFailed])"
    by (rule T [THEN conjunct2, THEN conjunct2, THEN mp, THEN conjunct1]) (rule img)
  show ?thesis by (intro conjI big dec blob img p i)
qed

text \<open>
  C8, as stated, fails at the level of \<^verbatim>\<open>handleMediaSelect\<close>: with an encoder that
  yields no blob, selecting the ten-megabyte image ends with that same image selected
  and nothing but a console message.
\<close>

theorem handleMediaSelect_swallows_reencode_failure:
  "toBlob failingEncoder bigImage (resizeRender bigImage (resizeDims (real 4000) (real 3000)))
     = None
   \<and> handleMediaSelect failingEncoder [bigImage] onlyA
       = (onlyA\<lparr>selectedFiles := [Some bigImage]\<rparr>, [ConsoleError ResizeFailed])"
  by (simp add: handleMediaSelect_def ingestFile_def processImage_def resizeImage_def
      failingEncoder_def decode4000x3000_def noBlob_def bigImage_def MAX_FILE_SIZE_def
      startsWith_def)

text \<open>
  C10. An accepted batch changes \<^verbatim>\<open>selectedFiles\<close> only: the crop store and the
  cursor are what they were. So a crop window stored under an index \<open>k\<close> of the new
  list is now the crop window of the new item at \<open>k\<close>, and a cursor at or beyond the
  length of the new list stays there, where the preview reads an undefined file.
\<close>

theorem handleMediaSelect_keeps_crops_and_cursor:
  assumes "length files \<le> 20"
  shows "cropData (fst (handleMediaSelect e files st)) = cropData st
       \<and> currentCarouselIndex (fst (handleMediaSelect e files st)) = currentCarouselIndex st
       \<and> selectedFiles (fst (handleMediaSelect e files st))
           = map (\<lambda>f. Some (fst (ingestFile e f))) files
       \<and> (\<forall>k c. k < length files \<and> getCrop (cropData st) k = Some c \<longrightarrow>
              jsAt (selectedFiles (fst (handleMediaSelect e files st))) k
                = Some (fst (ingestFile e (files ! k)))
              \<and> getCrop (cropData (fst (handleMediaSelect e files st))) k = Some c)
       \<and> (files \<noteq> [] \<and> length files \<le> currentCarouselIndex st \<longrightarrow>
              updatePreview setting e (fst (handleMediaSelect e files st)) = PreviewTypeError)"
  using assms
  by (auto simp: handleMediaSelect_frame handleMediaSelect_accepted jsAt_def updatePreview_def)

theorem handleMediaSelect_keeps_crops_and_cursor_witness:
  "length [fileC, fileA] \<le> 20
   \<and> (1::nat) < length [fileC, fileA]
   \<and> getCrop (cropData cropOnB) 1 = Some cropB
   \<and> jsAt (selectedFiles (fst (handleMediaSelect workingBrowser [fileC, fileA] cropOnB))) 1
       = Some fileA
   \<and> getCrop (cropData (fst (handleMediaSelect workingBrowser [fileC, fileA] cropOnB))) 1
       = Some cropB
   \<and> length [fileB] \<le> currentCarouselIndex cropsOnAC
   \<and> currentCarouselIndex (fst (handleMediaSelect workingBrowser [fileB] cropsOnAC)) = 2
   \<and> updatePreview Original workingBrowser (fst (handleMediaSelect workingBrowser [fileB] cropsOnAC))
       = PreviewTypeError"
proof -
  have l2: "length [fileC, fileA] \<le> 20" by simp
  have k: "(1::nat) < length [fileC, fileA]" by simp
  have c: "getCrop (cropData cropOnB) 1 = Some cropB" by (simp add: cropOnB_def getCrop_def)
  have ia: "ingestFile workingBrowser fileA = (fileA, [])"
    by (simp add: ingestFile_def processImage_def fileA_def MAX_FILE_SIZE_def startsWith_def)
  note T = handleMediaSelect_keeps_crops_and_cursor [OF l2, of workingBrowser cropOnB Original]
  have both: "jsAt (selectedFiles (fst (handleMediaSelect workingBrowser [fileC, fileA] cropOnB))) 1
                = Some (fst (ingestFile workingBrowser ([fileC, fileA] ! 1)))
              \<and> getCrop (cropData (fst (handleMediaSelect workingBrowser [fileC, fileA] cropOnB))) 1
                = Some cropB"
    by (rule T [THEN conjunct2, THEN conjunct2, THEN conjunct2, THEN conjunct1, THEN spec,
                THEN spec, THEN mp]) (intro conjI k c)
  have j: "jsAt (selectedFiles (fst (handleMediaSelect workingBrowser [fileC, fileA] cropOnB))) 1
       = Some fileA"
    using both ia by simp
  have l1: "length [fileB] \<le> 20" by simp
  have cur: "length [fileB] \<le> currentCarouselIndex cropsOnAC" by (simp add: cropsOnAC_def)
  note U = handleMediaSelect_keeps_crops_and_cursor [OF l1, of workingBrowser cropsOnAC Original]
  have cur': "currentCarouselIndex (fst (handleMediaSelect workingBrowser [fileB] cropsOnAC)) = 2"
    using U [THEN conjunct2, THEN conjunct1] by (simp add: cropsOnAC_def)
  have pv: "updatePreview Original workingBrowser
              (fst (handleMediaSelect workingBrowser [fileB] cropsOnAC)) = PreviewTypeError"
    by (rule U [THEN conjunct2, THEN conjunct2, THEN conjunct2, THEN conjunct2, THEN mp])
       (simp add: cropsOnAC_def)
  show ?thesis by (intro conjI l2 k c j both [THEN conjunct2] cur cur' pv)
qed

section \<open>Properties of the recomputation for a ratio\<close>

lemma boxForRatio_cases:
  "boxHeight c * r \<le> iw \<Longrightarrow> boxForRatio c iw ih r = (boxHeight c * r, boxHeight c)"
  "\<not> boxHeight c * r \<le> iw \<Longrightarrow> boxWidth c / r \<le> ih \<Longrightarrow>
     boxForRatio c iw ih r = (boxWidth c, boxWidth c / r)"
  "\<not> boxHeight c * r \<le> iw \<Longrightarrow> \<not> boxWidth c / r \<le> ih \<Longrightarrow>
     boxForRatio c iw ih r = (boxWidth c, boxWidth c / r) \<or>
     boxForRatio c iw ih r = (boxHeight c * r, boxHeight c)"
  by (auto simp: boxForRatio_def Let_def)

lemma boxForRatio_ratio:
  "r \<noteq> 0 \<Longrightarrow> fst (boxForRatio c iw ih r) = snd (boxForRatio c iw ih r) * r"
  by (auto simp: boxForRatio_def Let_def)

lemma boxForRatio_nonneg:
  "0 < r \<Longrightarrow> 0 \<le> boxWidth c \<Longrightarrow> 0 \<le> boxHeight c \<Longrightarrow>
   0 \<le> fst (boxForRatio c iw ih r) \<and> 0 \<le> snd (boxForRatio c iw ih r)"
  by (auto simp: boxForRatio_def Let_def)

lemma clampToImage_inside:
  assumes "0 \<le> bw" "0 \<le> bh" "0 \<le> iw" "0 \<le> ih"
  shows "0 \<le> clampedX (clampToImage cx cy (bw, bh) iw ih)"
    "0 \<le> clampedY (clampToImage cx cy (bw, bh) iw ih)"
    "0 \<le> clampedW (clampToImage cx cy (bw, bh) iw ih)"
    "0 \<le> clampedH (clampToImage cx cy (bw, bh) iw ih)"
    "clampedX (clampToImage cx cy (bw, bh) iw ih) + clampedW (clampToImage cx cy (bw, bh) iw ih) \<le> iw"
    "clampedY (clampToImage cx cy (bw, bh) iw ih) + clampedH (clampToImage cx cy (bw, bh) iw ih) \<le> ih"
  using assms by (auto simp: clampToImage_def Let_def)

lemma clampToImage_fits:
  assumes "bw \<le> iw" "bh \<le> ih"
  shows "clampedW (clampToImage cx cy (bw, bh) iw ih) = bw"
    "clampedH (clampToImage cx cy (bw, bh) iw ih) = bh"
  using assms by (auto simp: clampToImage_def Let_def)

lemma clampToImage_centered:
  assumes "0 \<le> cx - bw / 2" "cx + bw / 2 \<le> iw" 
  shows "clampedX (clampToImage cx cy (bw, bh) iw ih) = cx - bw / 2"
    "clampedW (clampToImage cx cy (bw, bh) iw ih) = bw"
  using assms by (auto simp: clampToImage_def Let_def)

lemma clampToImage_shrinks:
  "0 \<le> iw \<Longrightarrow> iw < bw \<Longrightarrow> clampedW (clampToImage cx cy (bw, bh) iw ih) = iw"
  "0 \<le> ih \<Longrightarrow> ih < bh \<Longrightarrow> clampedH (clampToImage cx cy (bw, bh) iw ih) = ih"
  by (auto simp: clampToImage_def Let_def)

lemma boxForRatio_idem:
  assumes "r \<noteq> 0"
  shows "boxForRatio (recomputedWindow c iw ih r) iw ih r = boxForRatio c iw ih r"
  using assms
  by (auto simp: boxForRatio_def recomputedWindow_def Let_def)

text \<open>
  What the recomputation gives for a positive ratio, an image of positive size and a
  stored box with no negative side: the branch taken for the derived box, the ratio of
  the derived box, and the rectangle inside the image, never larger than the derived
  box and equal to it, centred on the stored centre, when the box fits around that
  centre.
\<close>

lemma recomputeForRatio_box_and_clamp:
  assumes "0 < r" and "0 < iw" and "0 < ih" and "0 \<le> boxWidth c" and "0 \<le> boxHeight c"
  shows "recomputeForRatio c iw ih r
           = clampToImage (centerX c) (centerY c) (boxForRatio c iw ih r) iw ih
       \<and> (boxHeight c * r \<le> iw \<longrightarrow>
            boxForRatio c iw ih r = (boxHeight c * r, boxHeight c))
       \<and> (\<not> boxHeight c * r \<le> iw \<and> boxWidth c / r \<le> ih \<longrightarrow>
            boxForRatio c iw ih r = (boxWidth c, boxWidth c / r))
       \<and> (\<not> boxHeight c * r \<le> iw \<and> boxWidth c \<le> iw \<longrightarrow>
            boxWidth c / r < boxHeight c)
       \<and> (\<not> boxHeight c * r \<le> iw \<and> \<not> boxWidth c / r \<le> ih \<longrightarrow>
            clampedW (recomputeForRatio c iw ih r) < fst (boxForRatio c iw ih r)
            \<or> clampedH (recomputeForRatio c iw ih r) < snd (boxForRatio c iw ih r))
       \<and> fst (boxForRatio c iw ih r) = snd (boxForRatio c iw ih r) * r
       \<and> 0 \<le> clampedX (recomputeForRatio c iw ih r)
       \<and> 0 \<le> clampedY (recomputeForRatio c iw ih r)
       \<and> 0 \<le> clampedW (recomputeForRatio c iw ih r)
       \<and> 0 \<le> clampedH (recomputeForRatio c iw ih r)
       \<and> clampedX (recomputeForRatio c iw ih r) + clampedW (recomputeForRatio c iw ih r) \<le> iw
       \<and> clampedY (recomputeForRatio c iw ih r) + clampedH (recomputeForRatio c iw ih r) \<le> ih
       \<and> clampedW (recomputeForRatio c iw ih r) \<le> fst (boxForRatio c iw ih r)
       \<and> clampedH (recomputeForRatio c iw ih r) \<le> snd (boxForRatio c iw ih r)
       \<and> (fst (boxForRatio c iw ih r) \<le> iw \<and> snd (boxForRatio c iw ih r) \<le> ih \<longrightarrow>
            clampedW (recomputeForRatio c iw ih r) = fst (boxForRatio c iw ih r)
            \<and> clampedH (recomputeForRatio c iw ih r) = snd (boxForRatio c iw ih r))
       \<and> (0 \<le> centerX c - fst (boxForRatio c iw ih r) / 2
            \<and> centerX c + fst (boxForRatio c iw ih r) / 2 \<le> iw
            \<and> 0 \<le> centerY c - snd (boxForRatio c iw ih r) / 2
            \<and> centerY c + snd (boxForRatio c iw ih r) / 2 \<le> ih \<longrightarrow>
            recomputeForRatio c iw ih r
              = \<lparr>clampedX = centerX c - fst (boxForRatio c iw ih r) / 2,
                 clampedY = centerY c - snd (boxForRatio c iw ih r) / 2,
                 clampedW = fst (boxForRatio c iw ih r),
                 clampedH = snd (boxForRatio c iw ih r)\<rparr>)"
proof -
  let ?b = "boxForRatio c iw ih r"
  let ?R = "recomputeForRatio c iw ih r"
  have nn: "0 \<le> fst ?b" "0 \<le> snd ?b"
    using boxForRatio_nonneg [OF assms(1,4,5), of iw ih] by simp_all
  have rc: "?R = clampToImage (centerX c) (centerY c) (fst ?b, snd ?b) iw ih"
    by (simp add: recomputeForRatio_def)
  have iw0: "0 \<le> iw" and ih0: "0 \<le> ih" using assms by simp_all
  note inside = clampToImage_inside [OF nn iw0 ih0, of "centerX c" "centerY c", folded rc]
  have c1: "?R = clampToImage (centerX c) (centerY c) ?b iw ih"
    by (simp add: recomputeForRatio_def)
  have c2: "boxHeight c * r \<le> iw \<longrightarrow> ?b = (boxHeight c * r, boxHeight c)"
    by (simp add: boxForRatio_cases(1))
  have c3: "\<not> boxHeight c * r \<le> iw \<and> boxWidth c / r \<le> ih \<longrightarrow>
            ?b = (boxWidth c, boxWidth c / r)"
    by (simp add: boxForRatio_cases(2))
  have c3b: "\<not> boxHeight c * r \<le> iw \<and> boxWidth c \<le> iw \<longrightarrow> boxWidth c / r < boxHeight c"
    using assms(1) by (auto simp: divide_less_eq)
  have c4: "\<not> boxHeight c * r \<le> iw \<and> \<not> boxWidth c / r \<le> ih \<longrightarrow>
            clampedW ?R < fst ?b \<or> clampedH ?R < snd ?b"
  proof
    assume h: "\<not> boxHeight c * r \<le> iw \<and> \<not> boxWidth c / r \<le> ih"
    then consider "?b = (boxWidth c, boxWidth c / r)" | "?b = (boxHeight c * r, boxHeight c)"
      using boxForRatio_cases(3) [of c r iw ih] by blast
    then show "clampedW ?R < fst ?b \<or> clampedH ?R < snd ?b"
    proof cases
      case 1
      then have "ih < snd ?b" using h by simp
      then have "clampedH ?R < snd ?b"
        using clampToImage_shrinks(2) [OF ih0, of "snd ?b" "centerX c" "centerY c" "fst ?b" iw]
        by (simp add: recomputeForRatio_def)
      then show ?thesis ..
    next
      case 2
      then have "iw < fst ?b" using h by simp
      then have "clampedW ?R < fst ?b"
        using clampToImage_shrinks(1) [OF iw0, of "fst ?b" "centerX c" "centerY c" "snd ?b" ih]
        by (simp add: recomputeForRatio_def)
      then show ?thesis ..
    qed
  qed
  have c5: "fst ?b = snd ?b * r"
    using assms(1) by (simp add: boxForRatio_ratio)
  have c6: "clampedW ?R \<le> fst ?b" and c7: "clampedH ?R \<le> snd ?b"
    by (simp_all add: recomputeForRatio_def clampToImage_def Let_def split: prod.splits)
  have c8: "fst ?b \<le> iw \<and> snd ?b \<le> ih \<longrightarrow>
            clampedW ?R = fst ?b \<and> clampedH ?R = snd ?b"
    using clampToImage_fits [of "fst ?b" iw "snd ?b" ih "centerX c" "centerY c", folded rc]
    by simp
  have c9: "0 \<le> centerX c - fst ?b / 2 \<and> centerX c + fst ?b / 2 \<le> iw
            \<and> 0 \<le> centerY c - snd ?b / 2 \<and> centerY c + snd ?b / 2 \<le> ih \<longrightarrow>
            ?R = \<lparr>clampedX = centerX c - fst ?b / 2, clampedY = centerY c - snd ?b / 2,
                 clampedW = fst ?b, clampedH = snd ?b\<rparr>"
    by (auto simp: recomputeForRatio_def clampToImage_def Let_def split: prod.splits)
  show ?thesis
    by (intro conjI c1 c2 c3 c3b c4 c5 inside c6 c7 c8 c9)
qed

section \<open>Claims about the recomputation for a ratio\<close>

text \<open>
  C7. For a ratio \<open>r\<close> other than zero, deriving again with \<open>r\<close> from the derived
  window gives the same box, the same window and the same rectangle; and the derived
  window has the stored centre, also after a second derivation for another ratio
  \<open>r'\<close>; and the rectangle drawn for \<open>r'\<close> has its middle on the stored centre
  whenever the derived box fits around that centre. (In exact arithmetic; the script
  computes in floating point.)
\<close>

theorem recomputeForRatio_idempotent:
  assumes "r \<noteq> 0"
  shows "boxForRatio (recomputedWindow c iw ih r) iw ih r = boxForRatio c iw ih r
       \<and> recomputedWindow (recomputedWindow c iw ih r) iw ih r = recomputedWindow c iw ih r
       \<and> recomputeForRatio (recomputedWindow c iw ih r) iw ih r = recomputeForRatio c iw ih r
       \<and> centerX (recomputedWindow c iw ih r) = centerX c
       \<and> centerY (recomputedWindow c iw ih r) = centerY c
       \<and> centerX (recomputedWindow (recomputedWindow c iw ih r) iw ih r') = centerX c
       \<and> centerY (recomputedWindow (recomputedWindow c iw ih r) iw ih r') = centerY c
       \<and> (0 \<le> centerX c - fst (boxForRatio c iw ih r') / 2
            \<and> centerX c + fst (boxForRatio c iw ih r') / 2 \<le> iw
            \<and> 0 \<le> centerY c - snd (boxForRatio c iw ih r') / 2
            \<and> centerY c + snd (boxForRatio c iw ih r') / 2 \<le> ih \<longrightarrow>
            clampedX (recomputeForRatio c iw ih r') + clampedW (recomputeForRatio c iw ih r') / 2
              = centerX c
            \<and> clampedY (recomputeForRatio c iw ih r') + clampedH (recomputeForRatio c iw ih r') / 2
              = centerY c)"
proof -
  have i: "boxForRatio (recomputedWindow c iw ih r) iw ih r = boxForRatio c iw ih r"
    using assms by (rule boxForRatio_idem)
  have cx: "centerX (recomputedWindow c iw ih q) = centerX c" for c q
    by (simp add: recomputedWindow_def)
  have cy: "centerY (recomputedWindow c iw ih q) = centerY c" for c q
    by (simp add: recomputedWindow_def)
  have w: "recomputedWindow (recomputedWindow c iw ih r) iw ih r = recomputedWindow c iw ih r"
    unfolding recomputedWindow_def [of "recomputedWindow c iw ih r"] i
    by (simp add: recomputedWindow_def)
  have p: "recomputeForRatio (recomputedWindow c iw ih r) iw ih r = recomputeForRatio c iw ih r"
    by (simp add: recomputeForRatio_def i cx cy)
  have m: "0 \<le> centerX c - fst (boxForRatio c iw ih r') / 2
            \<and> centerX c + fst (boxForRatio c iw ih r') / 2 \<le> iw
            \<and> 0 \<le> centerY c - snd (boxForRatio c iw ih r') / 2
            \<and> centerY c + snd (boxForRatio c iw ih r') / 2 \<le> ih \<longrightarrow>
            clampedX (recomputeForRatio c iw ih r') + clampedW (recomputeForRatio c iw ih r') / 2
              = centerX c
            \<and> clampedY (recomputeForRatio c iw ih r') + clampedH (recomputeForRatio c iw ih r') / 2
              = centerY c"
    by (auto simp: recomputeForRatio_def clampToImage_def Let_def split: prod.splits)
  have cx2: "centerX (recomputedWindow (recomputedWindow c iw ih r) iw ih r') = centerX c"
    by (simp add: cx)
  have cy2: "centerY (recomputedWindow (recomputedWindow c iw ih r) iw ih r') = centerY c"
    by (simp add: cy)
  show ?thesis by (intro conjI i w p cx cy cx2 cy2 m)
qed

theorem recomputeForRatio_idempotent_witness:
  "(1::real) \<noteq> 0
   \<and> recomputedWindow cropA 2000 1500 1
       = \<lparr>cropped = True, centerX = 500, centerY = 500, boxWidth = 600, boxHeight = 600\<rparr>
   \<and> boxForRatio (recomputedWindow cropA 2000 1500 1) 2000 1500 1 = (600, 600)
   \<and> centerX (recomputedWindow (recomputedWindow cropA 2000 1500 1) 2000 1500 4) = 500
   \<and> boxForRatio cropA 2000 1500 4 = (800, 200)
   \<and> clampedX (recomputeForRatio cropA 2000 1500 4)
         + clampedW (recomputeForRatio cropA 2000 1500 4) / 2 = 500
   \<and> clampedY (recomputeForRatio cropA 2000 1500 4)
         + clampedH (recomputeForRatio cropA 2000 1500 4) / 2 = 500"
proof -
  have n: "(1::real) \<noteq> 0" by simp
  have b: "boxForRatio cropA 2000 1500 1 = (600, 600)"
    by (simp add: boxForRatio_def cropA_def)
  have w: "recomputedWindow cropA 2000 1500 1
       = \<lparr>cropped = True, centerX = 500, centerY = 500, boxWidth = 600, boxHeight = 600\<rparr>"
    by (simp add: recomputedWindow_def b) (simp add: cropA_def)
  note T = recomputeForRatio_idempotent [OF n, of cropA 2000 1500 4]
  have i: "boxForRatio (recomputedWindow cropA 2000 1500 1) 2000 1500 1 = (600, 600)"
    using T b by simp
  have c: "centerX (recomputedWindow (recomputedWindow cropA 2000 1500 1) 2000 1500 4) = 500"
    using T by (simp add: cropA_def)
  have b4: "boxForRatio cropA 2000 1500 4 = (800, 200)"
    by (simp add: boxForRatio_def cropA_def)
  have fits: "0 \<le> centerX cropA - fst (boxForRatio cropA 2000 1500 4) / 2
            \<and> centerX cropA + fst (boxForRatio cropA 2000 1500 4) / 2 \<le> 2000
            \<and> 0 \<le> centerY cropA - snd (boxForRatio cropA 2000 1500 4) / 2
            \<and> centerY cropA + snd (boxForRatio cropA 2000 1500 4) / 2 \<le> 1500"
    unfolding b4 by (simp add: cropA_def)
  have mid: "clampedX (recomputeForRatio cropA 2000 1500 4)
               + clampedW (recomputeForRatio cropA 2000 1500 4) / 2 = centerX cropA
           \<and> clampedY (recomputeForRatio cropA 2000 1500 4)
               + clampedH (recomputeForRatio cropA 2000 1500 4) / 2 = centerY cropA"
    using T fits by blast
  have mx: "clampedX (recomputeForRatio cropA 2000 1500 4)
              + clampedW (recomputeForRatio cropA 2000 1500 4) / 2 = 500"
    using mid [THEN conjunct1] by (simp add: cropA_def)
  have my: "clampedY (recomputeForRatio cropA 2000 1500 4)
              + clampedH (recomputeForRatio cropA 2000 1500 4) / 2 = 500"
    using mid [THEN conjunct2] by (simp add: cropA_def)
  show ?thesis by (intro conjI n w i c b4 mx my)
qed

section \<open>Claims about submission\<close>

text \<open>
  C2. \<^verbatim>\<open>applyCropToFile\<close> reads \<^verbatim>\<open>x\<close>, \<^verbatim>\<open>y\<close>, \<^verbatim>\<open>width\<close> and
  \<^verbatim>\<open>height\<close> of an entry that has none of them. For \<open>[A]\<close> with the committed
  window of centre \<open>(500, 500)\<close> and size 800 by 600, the canvas is sized by undefined
  values and the source rectangle handed to \<^verbatim>\<open>drawImage\<close> is undefined in all four
  places; another window gives the very same canvas pass; and what is appended is the
  file built from that pass.
\<close>

theorem handleCreatePost_draws_undefined_region:
  "getCrop (cropData croppedA) 0 = Some cropA
   \<and> cropped cropA
   \<and> applyCropToFile workingBrowser fileA cropA
       = Inr (smallBlob fileA
               \<lparr>canvasWidth = JUndefined, canvasHeight = JUndefined,
                drawArgs = [JUndefined, JUndefined, JUndefined, JUndefined,
                            JNum 0, JNum 0, JUndefined, JUndefined],
                blobType = ''image/jpeg'', blobQuality = 95 / 100\<rparr>)
   \<and> applyCropToFile workingBrowser fileA cropB = applyCropToFile workingBrowser fileA cropA
   \<and> handleCreatePost workingBrowser True croppedA
       = Submitted
           [CroppedFile
              (smallBlob fileA
                 \<lparr>canvasWidth = JUndefined, canvasHeight = JUndefined,
                  drawArgs = [JUndefined, JUndefined, JUndefined, JUndefined,
                              JNum 0, JNum 0, JUndefined, JUndefined],
                  blobType = ''image/jpeg'', blobQuality = 95 / 100\<rparr>)
              ''a.jpg'' ''image/jpeg'']"
proof -
  have p: "cropProp c ''x'' = JUndefined" "cropProp c ''y'' = JUndefined"
    "cropProp c ''width'' = JUndefined" "cropProp c ''height'' = JUndefined" for c
    by (simp_all add: cropProp_def)
  have a: "applyCropToFile workingBrowser fileA c
       = Inr (smallBlob fileA
               \<lparr>canvasWidth = JUndefined, canvasHeight = JUndefined,
                drawArgs = [JUndefined, JUndefined, JUndefined, JUndefined,
                            JNum 0, JNum 0, JUndefined, JUndefined],
                blobType = ''image/jpeg'', blobQuality = 95 / 100\<rparr>)" for c
    by (simp add: applyCropToFile_def p workingBrowser_def decode4000x3000_def)
  have g: "getCrop (cropData croppedA) 0 = Some cropA" by (simp add: croppedA_def getCrop_def)
  have c: "cropped cropA" by (simp add: cropA_def)
  have f: "jsAt (selectedFiles croppedA) 0 = Some fileA" by (simp add: croppedA_def jsAt_def)
  have l: "[0..<length (selectedFiles croppedA)] = [0]" by (simp add: croppedA_def)
  have n: "fname fileA = ''a.jpg''" by (simp add: fileA_def)
  have h: "handleCreatePost workingBrowser True croppedA
       = Submitted
           [CroppedFile
              (smallBlob fileA
                 \<lparr>canvasWidth = JUndefined, canvasHeight = JUndefined,
                  drawArgs = [JUndefined, JUndefined, JUndefined, JUndefined,
                              JNum 0, JNum 0, JUndefined, JUndefined],
                  blobType = ''image/jpeg'', blobQuality = 95 / 100\<rparr>)
              ''a.jpg'' ''image/jpeg'']"
    unfolding handleCreatePost_def l
    by (simp add: g c f a n) (simp add: croppedA_def)
  show ?thesis by (intro conjI g c a h) (simp add: a)
qed

section \<open>The resize drag on sample modals\<close>

lemma wide_drag: "resizeBox ''w'' 4 0 0 600 0 wideModal
   = \<lparr>boxX = 800, boxY = 50, boxW = 0, boxH = 0\<rparr>"
  by (simp add: resizeBox_def wideModal_def Let_def)

lemma square_drag: "resizeBox ''w'' 4 0 0 (- 300) 0 squareModal
   = \<lparr>boxX = 0, boxY = 150, boxW = 400, boxH = 125\<rparr>"
  by (simp add: resizeBox_def squareModal_def Let_def)

lemma square_drag_far: "resizeBox ''w'' 4 0 0 (- 2000) 0 squareModal
   = \<lparr>boxX = 0, boxY = 150, boxW = 1000, boxH = 250\<rparr>"
  by (simp add: resizeBox_def squareModal_def Let_def)

lemma square_far_move:
  "handleMouseMove (WtoH 4 1) 0 0 (- 2000) 0 squareModal
     = squareModal\<lparr>cropBox := Some \<lparr>boxX = 0, boxY = 150, boxW = 1000, boxH = 250\<rparr>\<rparr>"
  unfolding handleMouseMove_def
  by (simp add: Let_def squareModal_def resizeTargetRatio_def
      square_drag_far [unfolded squareModal_def])

lemma square_far_stored:
  "applyCrop squareBrowser 400 400 0 0 (Some 0)
     (handleMouseMove (WtoH 4 1) 0 0 (- 2000) 0 squareModal) onlyA
   = onlyA\<lparr>cropData := [(0, overwideCrop)]\<rparr>"
  unfolding square_far_move
  by (simp add: applyCrop_def onlyA_def jsAt_def squareBrowser_def decode400x400_def
      setCrop_def Let_def overwideCrop_def)

section \<open>Claims about the crop modal\<close>

text \<open>
  C6. Three drags of the west handle. Under the setting \<^verbatim>\<open>'original'\<close>, on an image
  shown at 800 by 200, dragging the handle 600 pixels to the right takes the left edge
  to the right edge of the image and leaves a box of width 0 and height 0, which
  \<^verbatim>\<open>applyCrop\<close> stores as a window of size 0 by 0. Under the setting
  \<^verbatim>\<open>"4:1"\<close>, on an image measured at 400 by 400, dragging it 300 pixels to the left
  leaves the box \<open>(0, 150, 400, 125)\<close>, of ratio 3.2 and not 4, stored as such; and
  dragging it 2000 pixels to the left leaves a box of width 1000 on an image of width
  400.
\<close>

theorem handleMouseMove_breaks_floor_ratio_and_bounds:
  "cropBox (handleMouseMove Original 0 0 600 0 wideModal)
     = Some \<lparr>boxX = 800, boxY = 50, boxW = 0, boxH = 0\<rparr>
   \<and> getCrop (cropData (applyCrop wideBrowser 800 200 0 0 (Some 0)
                           (handleMouseMove Original 0 0 600 0 wideModal) onlyA)) 0
       = Some \<lparr>cropped = True, centerX = 1600, centerY = 100, boxWidth = 0, boxHeight = 0\<rparr>
   \<and> cropBox (handleMouseMove (WtoH 4 1) 0 0 (- 300) 0 squareModal)
       = Some \<lparr>boxX = 0, boxY = 150, boxW = 400, boxH = 125\<rparr>
   \<and> (400::real) / 125 \<noteq> 4 / 1
   \<and> getCrop (cropData (applyCrop squareBrowser 400 400 0 0 (Some 0)
                           (handleMouseMove (WtoH 4 1) 0 0 (- 300) 0 squareModal) onlyA)) 0
       = Some \<lparr>cropped = True, centerX = 200, centerY = 425 / 2,
               boxWidth = 400, boxHeight = 125\<rparr>
   \<and> cropBox (handleMouseMove (WtoH 4 1) 0 0 (- 2000) 0 squareModal)
       = Some \<lparr>boxX = 0, boxY = 150, boxW = 1000, boxH = 250\<rparr>
   \<and> 0 + imageWidth squareModal < (0::real) + 1000"
proof -
  have m1: "handleMouseMove Original 0 0 600 0 wideModal
        = wideModal\<lparr>cropBox := Some \<lparr>boxX = 800, boxY = 50, boxW = 0, boxH = 0\<rparr>\<rparr>"
    unfolding handleMouseMove_def
    by (simp add: Let_def wideModal_def resizeTargetRatio_def wide_drag [unfolded wideModal_def])
  have m2: "handleMouseMove (WtoH 4 1) 0 0 (- 300) 0 squareModal
        = squareModal\<lparr>cropBox := Some \<lparr>boxX = 0, boxY = 150, boxW = 400, boxH = 125\<rparr>\<rparr>"
    unfolding handleMouseMove_def
    by (simp add: Let_def squareModal_def resizeTargetRatio_def
        square_drag [unfolded squareModal_def])
  have m3: "handleMouseMove (WtoH 4 1) 0 0 (- 2000) 0 squareModal
        = squareModal\<lparr>cropBox := Some \<lparr>boxX = 0, boxY = 150, boxW = 1000, boxH = 250\<rparr>\<rparr>"
    unfolding handleMouseMove_def
    by (simp add: Let_def squareModal_def resizeTargetRatio_def
        square_drag_far [unfolded squareModal_def])
  have f: "jsAt (selectedFiles onlyA) 0 = Some fileA" by (simp add: onlyA_def jsAt_def)
  have a1: "getCrop (cropData (applyCrop wideBrowser 800 200 0 0 (Some 0)
                           (handleMouseMove Original 0 0 600 0 wideModal) onlyA)) 0
       = Some \<lparr>cropped = True, centerX = 1600, centerY = 100, boxWidth = 0, boxHeight = 0\<rparr>"
    unfolding m1
    by (simp add: applyCrop_def f wideBrowser_def decode1600x400_def getCrop_setCrop Let_def)
  have a2: "getCrop (cropData (applyCrop squareBrowser 400 400 0 0 (Some 0)
                           (handleMouseMove (WtoH 4 1) 0 0 (- 300) 0 squareModal) onlyA)) 0
       = Some \<lparr>cropped = True, centerX = 200, centerY = 425 / 2,
               boxWidth = 400, boxHeight = 125\<rparr>"
    unfolding m2
    by (simp add: applyCrop_def f squareBrowser_def decode400x400_def getCrop_setCrop Let_def)
  show ?thesis
    unfolding m1 m2 m3 using a1 [unfolded m1] a2 [unfolded m2]
    by (simp add: squareModal_def)
qed

section \<open>Claim about the rectangle drawn for a ratio\<close>

text \<open>
  C5. The box is not shrunk to the ratio when it does not fit: each side is cut on its
  own. The window that \<^verbatim>\<open>applyCrop\<close> stores after the drag of 2000 pixels, 1000 by
  250 on an image of 400 by 400, keeps its width under the ratio 4 and is drawn as 400
  by 250, the width cut and the height left, of ratio 1.6; the preview draws that
  rectangle. A stored box of 300 by 200 on an image of 100 by 100 under the ratio 2
  takes the branch ``Scale down'', which leaves the box at 300 by 150, and is drawn as
  100 by 100, of ratio 1.
\<close>

theorem recomputeForRatio_cuts_each_side_alone:
  "applyCrop squareBrowser 400 400 0 0 (Some 0)
     (handleMouseMove (WtoH 4 1) 0 0 (- 2000) 0 squareModal) onlyA
     = onlyA\<lparr>cropData := [(0, overwideCrop)]\<rparr>
   \<and> boxForRatio overwideCrop 400 400 4 = (1000, 250)
   \<and> recomputeForRatio overwideCrop 400 400 4
       = \<lparr>clampedX = 0, clampedY = 150, clampedW = 400, clampedH = 250\<rparr>
   \<and> (400::real) / 250 \<noteq> 4
   \<and> updatePreview (WtoH 4 1) squareBrowser (onlyA\<lparr>cropData := [(0, overwideCrop)]\<rparr>)
       = CroppedImage fileA \<lparr>clampedX = 0, clampedY = 150, clampedW = 400, clampedH = 250\<rparr>
   \<and> \<not> boxHeight oversizedCrop * 2 \<le> 100 \<and> \<not> boxWidth oversizedCrop / 2 \<le> 100
   \<and> boxForRatio oversizedCrop 100 100 2 = (300, 150)
   \<and> recomputeForRatio oversizedCrop 100 100 2
       = \<lparr>clampedX = 0, clampedY = 0, clampedW = 100, clampedH = 100\<rparr>
   \<and> (100::real) / 100 \<noteq> 2"
proof -
  have b1: "boxForRatio overwideCrop 400 400 4 = (1000, 250)"
    by (simp add: boxForRatio_def overwideCrop_def)
  have r1: "recomputeForRatio overwideCrop 400 400 4
       = \<lparr>clampedX = 0, clampedY = 150, clampedW = 400, clampedH = 250\<rparr>"
    unfolding recomputeForRatio_def b1 by (simp add: clampToImage_def overwideCrop_def)
  have c: "cropped overwideCrop" by (simp add: overwideCrop_def)
  have u: "updatePreview (WtoH 4 1) squareBrowser (onlyA\<lparr>cropData := [(0, overwideCrop)]\<rparr>)
       = CroppedImage fileA \<lparr>clampedX = 0, clampedY = 150, clampedW = 400, clampedH = 250\<rparr>"
    using r1 c
    by (simp add: updatePreview_def onlyA_def jsAt_def getCrop_def squareBrowser_def
        decode400x400_def previewTargetRatio_def)
  have n: "\<not> boxHeight oversizedCrop * 2 \<le> 100" "\<not> boxWidth oversizedCrop / 2 \<le> 100"
    by (simp_all add: oversizedCrop_def)
  have b2: "boxForRatio oversizedCrop 100 100 2 = (300, 150)"
    by (simp add: boxForRatio_def oversizedCrop_def)
  have r2: "recomputeForRatio oversizedCrop 100 100 2
       = \<lparr>clampedX = 0, clampedY = 0, clampedW = 100, clampedH = 100\<rparr>"
    unfolding recomputeForRatio_def b2 by (simp add: clampToImage_def oversizedCrop_def)
  show ?thesis by (intro conjI square_far_stored b1 r1 u n b2 r2) simp_all
qed

end
